theory Spec2Isabelle
  imports Main "HOL-Library.FSet" "HOL-Library.Finite_Map" "HOL-Library.AList"
begin

section \<open>Values (package value)\<close>

text \<open>
  The package \<^verbatim>\<open>value\<close> is used by every file of this development but is not part of
  it.  The type tags and the values below follow its interface as the expression and
  execution packages use it: \<^verbatim>\<open>Type()\<close>, \<^verbatim>\<open>Truth()\<close>, \<^verbatim>\<open>Equals()\<close> and the constants
  \<^verbatim>\<open>TRUE_VALUE\<close>, \<^verbatim>\<open>FALSE_VALUE\<close>, \<^verbatim>\<open>NULL_VALUE\<close>, \<^verbatim>\<open>MISSING_VALUE\<close>.
\<close>

datatype vtype = MISSING | NULL | BINARY | BOOLEAN | NUMBER | STRING | ARRAY | OBJECT

datatype val =
    MissingVal
  | NullVal
  | BinaryVal string
  | BoolVal bool
  | NumberVal int
  | StringVal string
  | ArrayVal "val list"
  | ObjectVal "(string \<times> val) list"

definition TRUE_VALUE :: val where "TRUE_VALUE = BoolVal True"
definition FALSE_VALUE :: val where "FALSE_VALUE = BoolVal False"
definition NULL_VALUE :: val where "NULL_VALUE = NullVal"
definition MISSING_VALUE :: val where "MISSING_VALUE = MissingVal"

fun Type :: "val \<Rightarrow> vtype" where
  "Type MissingVal = MISSING"
| "Type NullVal = NULL"
| "Type (BinaryVal _) = BINARY"
| "Type (BoolVal _) = BOOLEAN"
| "Type (NumberVal _) = NUMBER"
| "Type (StringVal _) = STRING"
| "Type (ArrayVal _) = ARRAY"
| "Type (ObjectVal _) = OBJECT"

text \<open>
  Modelled from the spec: \<^verbatim>\<open>Value.Truth\<close> (package value).  The specification fixes
  \<^verbatim>\<open>MISSING.Truth() = false\<close> and \<^verbatim>\<open>NULL.Truth() = false\<close>; a boolean is its own truth
  value.  For the remaining kinds the usual JSON reading is taken (a non-zero number, a
  non-empty string, array or object is true; binary data is not).  No theorem below depends
  on the choice made for these remaining kinds.
\<close>

fun Truth :: "val \<Rightarrow> bool" where
  "Truth MissingVal = False"
| "Truth NullVal = False"
| "Truth (BinaryVal _) = False"
| "Truth (BoolVal b) = b"
| "Truth (NumberVal n) = (n \<noteq> 0)"
| "Truth (StringVal s) = (s \<noteq> [])"
| "Truth (ArrayVal xs) = (xs \<noteq> [])"
| "Truth (ObjectVal fs) = (fs \<noteq> [])"

text \<open>
  Modelled from the spec: \<^verbatim>\<open>Value.Equals\<close> (package value) returns a value, not a
  boolean: MISSING if either side is MISSING, else NULL if either side is NULL, else the
  boolean of deep structural equality.
\<close>

definition Equals :: "val \<Rightarrow> val \<Rightarrow> val" where
  "Equals a b =
     (if Type a = MISSING \<or> Type b = MISSING then MISSING_VALUE
      else if Type a = NULL \<or> Type b = NULL then NULL_VALUE
      else BoolVal (a = b))"

datatype error =
    EvaluationError string
  | InvalidValueError string
  | PlanError string
  | PlanInternalError string
  | Panic string

section \<open>OR: three-valued disjunction (expression/logic_or.go)\<close>

text \<open>
  \<^verbatim>\<open>Or.Apply\<close>: the loop over the arguments keeps the two flags \<^verbatim>\<open>missing\<close> and
  \<^verbatim>\<open>null\<close> and returns TRUE from inside the loop at the first argument that is neither
  NULL nor MISSING and whose truth value is true.
\<close>

fun Or_Apply_loop :: "bool \<Rightarrow> bool \<Rightarrow> val list \<Rightarrow> val" where
  "Or_Apply_loop missing null [] =
     (if null then NULL_VALUE else if missing then MISSING_VALUE else FALSE_VALUE)"
| "Or_Apply_loop missing null (arg # args) =
     (case Type arg of
        NULL \<Rightarrow> Or_Apply_loop missing True args
      | MISSING \<Rightarrow> Or_Apply_loop True null args
      | _ \<Rightarrow> if Truth arg then TRUE_VALUE else Or_Apply_loop missing null args)"

definition Or_Apply :: "val list \<Rightarrow> error + val" where
  "Or_Apply args = Inr (Or_Apply_loop False False args)"

lemma Truth_not_absent: "Truth a \<Longrightarrow> Type a \<noteq> NULL \<and> Type a \<noteq> MISSING"
  by (cases a) auto

lemma Or_Apply_loop_spec:
  "Or_Apply_loop missing null args =
     (if \<exists>a \<in> set args. Truth a then TRUE_VALUE
      else if null \<or> (\<exists>a \<in> set args. Type a = NULL) then NULL_VALUE
      else if missing \<or> (\<exists>a \<in> set args. Type a = MISSING) then MISSING_VALUE
      else FALSE_VALUE)"
proof (induction args arbitrary: missing null)
  case Nil
  show ?case by simp
next
  case (Cons arg args)
  show ?case
    by (cases arg) (simp_all add: Cons.IH)
qed

text \<open>
  C1.  For every list of operand values given to \<^verbatim>\<open>Or.Apply\<close> the call succeeds and the
  result is TRUE if the truth value of some operand is true; otherwise NULL if some operand
  is NULL; otherwise MISSING if some operand is MISSING; otherwise FALSE.
\<close>

theorem Or_Apply_priority:
  "Or_Apply args =
     Inr (if \<exists>a \<in> set args. Truth a then TRUE_VALUE
          else if \<exists>a \<in> set args. Type a = NULL then NULL_VALUE
          else if \<exists>a \<in> set args. Type a = MISSING then MISSING_VALUE
          else FALSE_VALUE)"
  by (simp add: Or_Apply_def Or_Apply_loop_spec)

theorem Or_Apply_priority_witness:
  "Or_Apply [NullVal, MissingVal, NumberVal 3] = Inr TRUE_VALUE
   \<and> Or_Apply [MissingVal, BoolVal False, NullVal] = Inr NULL_VALUE
   \<and> Or_Apply [BoolVal False, MissingVal] = Inr MISSING_VALUE
   \<and> Or_Apply [BoolVal False, NumberVal 0] = Inr FALSE_VALUE"
  using Or_Apply_priority [of "[NullVal, MissingVal, NumberVal 3]"]
        Or_Apply_priority [of "[MissingVal, BoolVal False, NullVal]"]
        Or_Apply_priority [of "[BoolVal False, MissingVal]"]
        Or_Apply_priority [of "[BoolVal False, NumberVal 0]"]
  by simp

section \<open>Expressions: constant value and equivalence (expression/base.go)\<close>

text \<open>
  \<^verbatim>\<open>ExpressionBase\<close> is embedded in every expression node.  Its field \<^verbatim>\<open>value\<close> is a
  pointer to a value: nil before the first call of \<^verbatim>\<open>Value()\<close>, the address of
  \<^verbatim>\<open>_NIL_VALUE\<close> (a nil value: "not a constant") or the address of the constant.  The
  model writes the three states \<open>None\<close>, \<open>Some None\<close> and \<open>Some (Some v)\<close>.  The
  field \<^verbatim>\<open>expr\<close> points back to the node itself and \<^verbatim>\<open>isVar\<close> is read by none of the
  functions below; both are left out.
\<close>

record ExpressionBase =
  valuePtr :: "val option option"
  conditional :: bool
  volatile :: bool

text \<open>
  A node is its base, its dynamic Go type (what \<^verbatim>\<open>reflect.TypeOf\<close> compares) and its
  children, in order.  \<^verbatim>\<open>Or\<close> is defined in the sources at hand, \<^verbatim>\<open>And\<close> is named by
  the classifier; every other kind is \<open>TOther\<close> with its name.  The sources hold two
  versions of the function \<^verbatim>\<open>Views\<close>, which differ in \<^verbatim>\<open>Evaluate\<close>: the one at the end
  of base.go returns \<^verbatim>\<open>NULL_VALUE\<close> whatever the item, the later one reads the item (it
  panics on a nil item).  Nothing below depends on \<^verbatim>\<open>Views\<close>; it is one of the other
  kinds.
\<close>

datatype etype = TOr | TAnd | TOther string

datatype expr = Expr ExpressionBase etype "expr list"

fun base :: "expr \<Rightarrow> ExpressionBase" where "base (Expr b t cs) = b"
fun TypeOf :: "expr \<Rightarrow> etype" where "TypeOf (Expr b t cs) = t"
fun Children :: "expr \<Rightarrow> expr list" where "Children (Expr b t cs) = cs"

text \<open>
  \<^verbatim>\<open>Or.Evaluate\<close> is \<^verbatim>\<open>this.Eval(this, item, context)\<close>.

  Modelled from the spec: \<^verbatim>\<open>FunctionBase.Eval\<close> and the \<^verbatim>\<open>Evaluate\<close> methods of the
  kinds defined outside these sources.  \<^verbatim>\<open>Eval\<close> evaluates the operands in order, gives
  up at the first error and applies the function to the operand values (the spec: the
  result of OR is determined by the values of its operands).  The kinds defined elsewhere
  are treated alike, their function being the parameter \<open>ext\<close>: it receives the kind's
  name, the item (\<open>None\<close> is Go's nil item) and the operand values; a leaf such as an
  identifier or a constant has no operands.  A panic during evaluation is the error
  \<open>Panic\<close>.
\<close>

type_synonym ext = "string \<Rightarrow> val option \<Rightarrow> val list \<Rightarrow> error + val"

fun Evaluate :: "ext \<Rightarrow> expr \<Rightarrow> val option \<Rightarrow> error + val"
and Eval_operands :: "ext \<Rightarrow> expr list \<Rightarrow> val option \<Rightarrow> error + val list" where
  "Evaluate ext (Expr b t ops) item =
     (case t of
        TOr \<Rightarrow> (case Eval_operands ext ops item of Inl err \<Rightarrow> Inl err | Inr args \<Rightarrow> Or_Apply args)
      | TAnd \<Rightarrow> (case Eval_operands ext ops item of Inl err \<Rightarrow> Inl err | Inr args \<Rightarrow> ext ''and'' item args)
      | TOther name \<Rightarrow>
          (case Eval_operands ext ops item of Inl err \<Rightarrow> Inl err | Inr args \<Rightarrow> ext name item args))"
| "Eval_operands ext [] item = Inr []"
| "Eval_operands ext (op # ops) item =
     (case Evaluate ext op item of
        Inl err \<Rightarrow> Inl err
      | Inr arg \<Rightarrow> (case Eval_operands ext ops item of Inl err \<Rightarrow> Inl err | Inr args \<Rightarrow> Inr (arg # args)))"

text \<open>
  \<^verbatim>\<open>ExpressionBase.PropagatesMissing\<close> and \<^verbatim>\<open>PropagatesNull\<close>: false for a conditional
  node, else false as soon as a child answers false.  \<^verbatim>\<open>Or\<close> does not override
  them (logic_or.go declares neither method).
\<close>

fun PropagatesMissing :: "expr \<Rightarrow> bool" and PropagatesMissing_children :: "expr list \<Rightarrow> bool" where
  "PropagatesMissing (Expr b t cs) = (if conditional b then False else PropagatesMissing_children cs)"
| "PropagatesMissing_children [] = True"
| "PropagatesMissing_children (child # cs) =
     (if \<not> PropagatesMissing child then False else PropagatesMissing_children cs)"

fun PropagatesNull :: "expr \<Rightarrow> bool" and PropagatesNull_children :: "expr list \<Rightarrow> bool" where
  "PropagatesNull (Expr b t cs) = (if conditional b then False else PropagatesNull_children cs)"
| "PropagatesNull_children [] = True"
| "PropagatesNull_children (child # cs) =
     (if \<not> PropagatesNull child then False else PropagatesNull_children cs)"

text \<open>
  \<^verbatim>\<open>ExpressionBase.Value\<close>.  The call writes the cache of the node and, through the
  children's \<^verbatim>\<open>Value()\<close>, of the children it visits, so the model returns the updated
  node next to the result (\<open>None\<close> is Go's nil value).  \<open>Value_children\<close> is the loop
  over the children: it carries \<^verbatim>\<open>this.value\<close> and stops at the first constant MISSING
  child of a node that propagates MISSING (the \<^verbatim>\<open>return\<close> inside the loop), leaving the
  remaining children unvisited.  The deferred \<^verbatim>\<open>recover()\<close> turns a panic of
  \<^verbatim>\<open>Evaluate\<close> into the cached nil value, as the error branch does.
\<close>

fun Value :: "ext \<Rightarrow> expr \<Rightarrow> val option \<times> expr"
and Value_children ::
  "ext \<Rightarrow> bool \<Rightarrow> bool \<Rightarrow> val option option \<Rightarrow> expr list \<Rightarrow> val option option \<times> expr list" where
  "Value ext (Expr b t cs) =
     (case valuePtr b of
        Some v \<Rightarrow> (v, Expr b t cs)
      | None \<Rightarrow>
          if volatile b then (None, Expr (b\<lparr>valuePtr := Some None\<rparr>) t cs)
          else
            (let propMissing = PropagatesMissing (Expr b t cs);
                 propNull = PropagatesNull (Expr b t cs);
                 (vp, cs') = Value_children ext propMissing propNull None cs
             in case vp of
                  Some v \<Rightarrow> (v, Expr (b\<lparr>valuePtr := vp\<rparr>) t cs')
                | None \<Rightarrow>
                    (case Evaluate ext (Expr b t cs') None of
                       Inl err \<Rightarrow> (None, Expr (b\<lparr>valuePtr := Some None\<rparr>) t cs')
                     | Inr val \<Rightarrow> (Some val, Expr (b\<lparr>valuePtr := Some (Some val)\<rparr>) t cs'))))"
| "Value_children ext propMissing propNull vp [] = (vp, [])"
| "Value_children ext propMissing propNull vp (child # rest) =
     (let (cv, child') = Value ext child in
      case cv of
        None \<Rightarrow>
          (let (vp', rest') =
                 Value_children ext propMissing propNull (if vp = None then Some None else vp) rest
           in (vp', child' # rest'))
      | Some v \<Rightarrow>
          if propMissing \<and> Type v = MISSING then (Some (Some v), child' # rest)
          else
            (let (vp', rest') =
                   Value_children ext propMissing propNull
                     (if propNull \<and> Type v = NULL then Some (Some v) else vp) rest
             in (vp', child' # rest')))"

text \<open>
  Modelled from the spec: \<^verbatim>\<open>Value.EquivalentTo\<close> (package value), "constant-equal": the
  two constants are the same value.
\<close>

definition val_EquivalentTo :: "val \<Rightarrow> val \<Rightarrow> bool" where
  "val_EquivalentTo a b \<longleftrightarrow> a = b"

text \<open>
  \<^verbatim>\<open>ExpressionBase.valueEquivalentTo\<close> and \<^verbatim>\<open>ExpressionBase.EquivalentTo\<close>.  They call
  \<^verbatim>\<open>Value()\<close> on both expressions; what these calls write into the caches does not
  change what any later call returns (\<open>Value_again\<close> below), so the comparison is
  modelled on the results alone.  \<open>EquivalentTo_children\<close> is the loop over the pairs of
  children; it is entered with lists of equal length only.
\<close>

definition valueEquivalentTo :: "ext \<Rightarrow> expr \<Rightarrow> expr \<Rightarrow> bool" where
  "valueEquivalentTo ext this other =
     (case (fst (Value ext this), fst (Value ext other)) of
        (Some thisValue, Some otherValue) \<Rightarrow> val_EquivalentTo thisValue otherValue
      | _ \<Rightarrow> False)"

fun EquivalentTo :: "ext \<Rightarrow> expr \<Rightarrow> expr \<Rightarrow> bool"
and EquivalentTo_children :: "ext \<Rightarrow> expr list \<Rightarrow> expr list \<Rightarrow> bool" where
  "EquivalentTo ext (Expr b t ours) (Expr b' t' theirs) =
     (if valueEquivalentTo ext (Expr b t ours) (Expr b' t' theirs) then True
      else if t \<noteq> t' then False
      else if length ours \<noteq> length theirs then False
      else EquivalentTo_children ext ours theirs)"
| "EquivalentTo_children ext [] theirs = True"
| "EquivalentTo_children ext (child # ours) [] = True"
| "EquivalentTo_children ext (child # ours) (their # theirs) =
     (if \<not> EquivalentTo ext child their then False else EquivalentTo_children ext ours theirs)"

text \<open>The base of a freshly constructed node, as \<^verbatim>\<open>NewOr\<close> leaves it.\<close>

definition newBase :: ExpressionBase where
  "newBase = \<lparr>valuePtr = None, conditional = False, volatile = False\<rparr>"

text \<open>
  Example nodes.  The kinds defined elsewhere are instantiated by \<open>extExample\<close>: the
  nullary function \<^verbatim>\<open>random\<close> (volatile), the constant \<^verbatim>\<open>1\<close>, and identifiers, which
  read the field of their name from the item (MISSING when it is absent) and panic on a nil
  item.  \<open>extNull\<close> adds the constant \<^verbatim>\<open>NULL\<close>, which evaluates to \<^verbatim>\<open>NULL_VALUE\<close> on
  every item, the nil item included.
\<close>

definition Field :: "val \<Rightarrow> string \<Rightarrow> val" where
  "Field v name =
     (case v of
        ObjectVal fs \<Rightarrow> (case map_of fs name of Some x \<Rightarrow> x | None \<Rightarrow> MISSING_VALUE)
      | _ \<Rightarrow> MISSING_VALUE)"

definition extExample :: ext where
  "extExample name item args =
     (if name = ''random'' then Inr (NumberVal 4)
      else if name = ''1'' then Inr (NumberVal 1)
      else case item of None \<Rightarrow> Inl (Panic ''nil item'') | Some v \<Rightarrow> Inr (Field v name))"

definition exRandom :: expr where
  "exRandom = Expr (newBase\<lparr>volatile := True\<rparr>) (TOther ''random'') []"

definition extNull :: ext where
  "extNull name item args = (if name = ''null'' then Inr NULL_VALUE else extExample name item args)"

definition exNull :: expr where
  "exNull = Expr newBase (TOther ''null'') []"

definition exIdent :: "string \<Rightarrow> expr" where
  "exIdent name = Expr newBase (TOther name) []"

definition exOne :: expr where
  "exOne = Expr newBase (TOther ''1'') []"

subsection \<open>The constant value\<close>

lemma Type_MISSING_iff: "Type v = MISSING \<longleftrightarrow> v = MISSING_VALUE"
  by (cases v) (simp_all add: MISSING_VALUE_def)

lemma Type_NULL_iff: "Type v = NULL \<longleftrightarrow> v = NULL_VALUE"
  by (cases v) (simp_all add: NULL_VALUE_def)

lemma Evaluate_operands_cong:
  "Eval_operands ext cs' item = Eval_operands ext cs item \<Longrightarrow>
   Evaluate ext (Expr b' t cs') item = Evaluate ext (Expr b t cs) item"
  by (simp split: etype.split)

lemma Value_node:
  "\<exists>b'. snd (Value ext (Expr b t cs)) =
     Expr b' t (if valuePtr b = None \<and> \<not> volatile b
                then snd (Value_children ext (PropagatesMissing (Expr b t cs))
                            (PropagatesNull (Expr b t cs)) None cs)
                else cs)"
  by (simp add: Let_def split_beta
        del: Evaluate.simps PropagatesMissing.simps PropagatesNull.simps
        split: option.split sum.split)

lemma Value_children_Cons:
  "snd (Value_children ext pm pn vp (child # rest)) = snd (Value ext child) # rest
   \<or> (\<exists>vp'. snd (Value_children ext pm pn vp (child # rest))
              = snd (Value ext child) # snd (Value_children ext pm pn vp' rest))"
proof (cases "fst (Value ext child)")
  case None
  then have "snd (Value_children ext pm pn vp (child # rest))
     = snd (Value ext child) # snd (Value_children ext pm pn (if vp = None then Some None else vp) rest)"
    by (simp add: Let_def split_beta)
  then show ?thesis by blast
next
  case (Some v)
  show ?thesis
  proof (cases "pm \<and> Type v = MISSING")
    case True
    with Some show ?thesis by (simp add: Let_def split_beta)
  next
    case False
    with Some have "snd (Value_children ext pm pn vp (child # rest))
       = snd (Value ext child) #
           snd (Value_children ext pm pn (if pn \<and> Type v = NULL then Some (Some v) else vp) rest)"
      by (auto simp add: Let_def split_beta)
    then show ?thesis by blast
  qed
qed

lemma Value_children_keep_Eval_operands:
  assumes "\<forall>c \<in> set cs. Evaluate ext (snd (Value ext c)) item = Evaluate ext c item"
  shows "Eval_operands ext (snd (Value_children ext pm pn vp cs)) item = Eval_operands ext cs item"
  using assms
proof (induction cs arbitrary: vp)
  case Nil
  then show ?case by simp
next
  case (Cons child rest)
  have r: "\<And>vp. Eval_operands ext (snd (Value_children ext pm pn vp rest)) item
             = Eval_operands ext rest item"
    using Cons by simp
  have c: "Evaluate ext (snd (Value ext child)) item = Evaluate ext child item"
    using Cons.prems by simp
  from Value_children_Cons [of ext pm pn vp child rest] show ?case
  proof
    assume "snd (Value_children ext pm pn vp (child # rest)) = snd (Value ext child) # rest"
    then show ?thesis by (simp only: Eval_operands.simps c)
  next
    assume "\<exists>vp'. snd (Value_children ext pm pn vp (child # rest))
              = snd (Value ext child) # snd (Value_children ext pm pn vp' rest)"
    then obtain vp' where "snd (Value_children ext pm pn vp (child # rest))
              = snd (Value ext child) # snd (Value_children ext pm pn vp' rest)" by blast
    then show ?thesis by (simp only: Eval_operands.simps c r)
  qed
qed

lemma Value_keeps_Evaluate:
  "Evaluate ext (snd (Value ext e)) item = Evaluate ext e item"
proof (induction e)
  case (Expr b t cs)
  obtain b' where n: "snd (Value ext (Expr b t cs)) =
     Expr b' t (if valuePtr b = None \<and> \<not> volatile b
                then snd (Value_children ext (PropagatesMissing (Expr b t cs))
                            (PropagatesNull (Expr b t cs)) None cs)
                else cs)"
    using Value_node by blast
  have ih: "\<forall>c \<in> set cs. Evaluate ext (snd (Value ext c)) item = Evaluate ext c item"
    using Expr.IH by blast
  show ?case
  proof (cases "valuePtr b = None \<and> \<not> volatile b")
    case True
    with n have n': "snd (Value ext (Expr b t cs)) =
        Expr b' t (snd (Value_children ext (PropagatesMissing (Expr b t cs))
                            (PropagatesNull (Expr b t cs)) None cs))"
      by (simp del: Value.simps Evaluate.simps PropagatesMissing.simps PropagatesNull.simps)
    show ?thesis unfolding n'
      by (rule Evaluate_operands_cong) (rule Value_children_keep_Eval_operands [OF ih])
  next
    case False
    with n have n': "snd (Value ext (Expr b t cs)) = Expr b' t cs"
      by (simp del: Value.simps Evaluate.simps PropagatesMissing.simps PropagatesNull.simps)
    show ?thesis unfolding n' by (rule Evaluate_operands_cong) (rule refl)
  qed
qed

lemma Value_children_result:
  "fst (Value_children ext pm pn vp cs) =
     (if pm \<and> (\<exists>c \<in> set cs. fst (Value ext c) = Some MISSING_VALUE) then Some (Some MISSING_VALUE)
      else if pn \<and> (\<exists>c \<in> set cs. fst (Value ext c) = Some NULL_VALUE) then Some (Some NULL_VALUE)
      else if vp \<noteq> None then vp
      else if \<exists>c \<in> set cs. fst (Value ext c) = None then Some None
      else None)"
proof (induction cs arbitrary: vp)
  case Nil
  then show ?case by simp
next
  case (Cons child rest)
  obtain cv child' where c: "Value ext child = (cv, child')" by (cases "Value ext child") auto
  show ?case
  proof (cases cv)
    case None
    then show ?thesis using c Cons.IH [of "if vp = None then Some None else vp"]
      by (auto simp: Let_def split_beta)
  next
    case (Some v)
    then show ?thesis
      using c Cons.IH [of "if pn \<and> Type v = NULL then Some (Some v) else vp"]
      by (auto simp: Let_def split_beta Type_MISSING_iff Type_NULL_iff MISSING_VALUE_def NULL_VALUE_def)
  qed
qed

lemma Value_caches: "valuePtr (base (snd (Value ext e))) = Some (fst (Value ext e))"
  by (cases e) (simp add: Let_def split_beta del: Evaluate.simps split: option.split sum.split)

lemma Value_again: "Value ext (snd (Value ext e)) = (fst (Value ext e), snd (Value ext e))"
proof -
  obtain b t cs where e': "snd (Value ext e) = Expr b t cs" by (cases "snd (Value ext e)") auto
  with Value_caches [of ext e] have "valuePtr b = Some (fst (Value ext e))" by simp
  then show ?thesis using e' by simp
qed

lemma Value_uncached:
  assumes "valuePtr b = None"
  shows "fst (Value ext (Expr b t cs)) =
     (if volatile b then None
      else if PropagatesMissing (Expr b t cs) \<and> (\<exists>c \<in> set cs. fst (Value ext c) = Some MISSING_VALUE)
        then Some MISSING_VALUE
      else if PropagatesNull (Expr b t cs) \<and> (\<exists>c \<in> set cs. fst (Value ext c) = Some NULL_VALUE)
        then Some NULL_VALUE
      else if \<exists>c \<in> set cs. fst (Value ext c) = None then None
      else (case Evaluate ext (Expr b t cs) None of Inl err \<Rightarrow> None | Inr v \<Rightarrow> Some v))"
proof (cases "volatile b")
  case True
  then show ?thesis using assms by simp
next
  case False
  let ?pm = "PropagatesMissing (Expr b t cs)" and ?pn = "PropagatesNull (Expr b t cs)"
  obtain vp cs' where l: "Value_children ext ?pm ?pn None cs = (vp, cs')"
    by (cases "Value_children ext ?pm ?pn None cs") auto
  have vp: "vp = fst (Value_children ext ?pm ?pn None cs)" using l by simp
  have ev: "Evaluate ext (Expr b t cs') None = Evaluate ext (Expr b t cs) None"
    using Value_children_keep_Eval_operands [of cs ext None ?pm ?pn None] l
    by (simp add: Value_keeps_Evaluate split: etype.splits)
  have v: "fst (Value ext (Expr b t cs)) =
      (case vp of Some v \<Rightarrow> v
       | None \<Rightarrow> (case Evaluate ext (Expr b t cs) None of Inl err \<Rightarrow> None | Inr v \<Rightarrow> Some v))"
    using assms False l ev
    by (simp add: Let_def del: Evaluate.simps PropagatesMissing.simps PropagatesNull.simps
          split: option.split sum.split)
  show ?thesis
    unfolding v vp Value_children_result using False
    by (auto simp del: Evaluate.simps PropagatesMissing.simps PropagatesNull.simps)
qed

lemma Value_example_random: "fst (Value ext exRandom) = None"
  by (simp add: exRandom_def newBase_def)

lemma Value_example_null: "fst (Value extNull exNull) = Some NULL_VALUE"
  by (simp add: exNull_def newBase_def extNull_def)

lemma Value_example_ident: "fst (Value extNull (exIdent ''x'')) = None"
  by (simp add: exIdent_def newBase_def extNull_def extExample_def)

lemma Or_Evaluate_true:
  assumes "Eval_operands ext cs item = Inr args" and "\<exists>a \<in> set args. Truth a"
  shows "Evaluate ext (Expr b TOr cs) item = Inr TRUE_VALUE"
  using assms by (simp add: Or_Apply_def Or_Apply_loop_spec)

text \<open>
  What \<^verbatim>\<open>Value()\<close> returns is described in full by \<open>Value_uncached\<close> (a node whose
  cache is empty), \<open>Value_caches\<close> (the result is cached) and \<open>Value_again\<close> (a second
  call returns it and changes nothing).  In particular a node that is not volatile, all
  of whose children are constant and none of them a propagated MISSING or NULL, has the
  value that \<^verbatim>\<open>Evaluate(nil, nil)\<close> returns, or nil when that evaluation fails or panics.
\<close>

text \<open>
  C3.  The statement fails on OR.  \<^verbatim>\<open>Or\<close> inherits \<^verbatim>\<open>PropagatesMissing\<close> and
  \<^verbatim>\<open>PropagatesNull\<close> from \<^verbatim>\<open>ExpressionBase\<close>, so an OR none of whose operands is
  conditional propagates both.  Take an OR node that is not volatile and whose cache is
  empty, whatever its operands are, constant or not.  If it propagates MISSING and some
  operand is the constant MISSING, \<^verbatim>\<open>Value()\<close> is the constant MISSING; else, if it
  propagates NULL and some operand is the constant NULL, \<^verbatim>\<open>Value()\<close> is the constant
  NULL.  But on every item (the nil item included) on which the operands evaluate and
  one of them is true, \<^verbatim>\<open>Evaluate\<close> returns TRUE, since \<^verbatim>\<open>Or.Apply\<close> puts TRUE before NULL
  and MISSING.  So \<^verbatim>\<open>Value()\<close> is a constant although an operand is not constant, and
  it is not what \<^verbatim>\<open>Evaluate(nil)\<close> returns.
\<close>

theorem Or_Value_propagated_constant:
  assumes "valuePtr b = None" and "\<not> volatile b"
    and "Eval_operands ext cs item = Inr args"
  shows "(PropagatesMissing (Expr b TOr cs)
            \<and> (\<exists>c \<in> set cs. fst (Value ext c) = Some MISSING_VALUE)
            \<longrightarrow> fst (Value ext (Expr b TOr cs)) = Some MISSING_VALUE)
       \<and> (PropagatesNull (Expr b TOr cs)
            \<and> (\<exists>c \<in> set cs. fst (Value ext c) = Some NULL_VALUE)
            \<and> \<not> (\<exists>c \<in> set cs. fst (Value ext c) = Some MISSING_VALUE)
            \<longrightarrow> fst (Value ext (Expr b TOr cs)) = Some NULL_VALUE)
       \<and> ((\<exists>a \<in> set args. Truth a) \<longrightarrow> Evaluate ext (Expr b TOr cs) item = Inr TRUE_VALUE)"
proof -
  note u = Value_uncached [OF assms(1), of ext TOr cs]
  have 1: "PropagatesMissing (Expr b TOr cs)
            \<and> (\<exists>c \<in> set cs. fst (Value ext c) = Some MISSING_VALUE)
            \<longrightarrow> fst (Value ext (Expr b TOr cs)) = Some MISSING_VALUE"
    unfolding u using assms(2)
    by (simp del: PropagatesMissing.simps PropagatesNull.simps Evaluate.simps Value.simps)
  have 2: "PropagatesNull (Expr b TOr cs)
            \<and> (\<exists>c \<in> set cs. fst (Value ext c) = Some NULL_VALUE)
            \<and> \<not> (\<exists>c \<in> set cs. fst (Value ext c) = Some MISSING_VALUE)
            \<longrightarrow> fst (Value ext (Expr b TOr cs)) = Some NULL_VALUE"
    unfolding u using assms(2)
    by (simp del: PropagatesMissing.simps PropagatesNull.simps Evaluate.simps Value.simps)
  have 3: "(\<exists>a \<in> set args. Truth a) \<longrightarrow> Evaluate ext (Expr b TOr cs) item = Inr TRUE_VALUE"
    using Or_Evaluate_true [OF assms(3)] by blast
  show ?thesis using 1 2 3 by blast
qed

theorem Or_Value_propagated_constant_witness:
  "exRandom \<in> set [exRandom, exNull]
   \<and> fst (Value extNull exRandom) = None
   \<and> valuePtr newBase = None \<and> \<not> volatile newBase
   \<and> fst (Value extNull (Expr newBase TOr [exRandom, exNull])) = Some NULL_VALUE
   \<and> Evaluate extNull (Expr newBase TOr [exRandom, exNull]) None = Inr TRUE_VALUE
   \<and> Inr NULL_VALUE \<noteq> (Inr TRUE_VALUE :: error + val)"
proof -
  have n: "valuePtr newBase = None" "\<not> volatile newBase"
    by (simp_all add: newBase_def)
  have p: "PropagatesMissing (Expr newBase TOr [exRandom, exNull])"
    "PropagatesNull (Expr newBase TOr [exRandom, exNull])"
    by (simp_all add: exRandom_def exNull_def newBase_def)
  have e: "Eval_operands extNull [exRandom, exNull] None = Inr [NumberVal 4, NULL_VALUE]"
    by (simp add: exRandom_def exNull_def extNull_def extExample_def)
  have c: "\<exists>c \<in> set [exRandom, exNull]. fst (Value extNull c) = Some NULL_VALUE"
    using Value_example_null by simp
  have m: "\<not> (\<exists>c \<in> set [exRandom, exNull]. fst (Value extNull c) = Some MISSING_VALUE)"
    using Value_example_null Value_example_random [of extNull]
    by (simp add: NULL_VALUE_def MISSING_VALUE_def)
  have t: "\<exists>a \<in> set [NumberVal 4, NULL_VALUE]. Truth a" by simp
  from Or_Value_propagated_constant [OF n e] p c m t
  have "fst (Value extNull (Expr newBase TOr [exRandom, exNull])) = Some NULL_VALUE"
    and "Evaluate extNull (Expr newBase TOr [exRandom, exNull]) None = Inr TRUE_VALUE"
    by blast+
  then show ?thesis
    using n Value_example_random [of extNull] by (simp add: NULL_VALUE_def TRUE_VALUE_def)
qed

subsection \<open>Equivalence\<close>

lemma valueEquivalentTo_sym: "valueEquivalentTo ext a b = valueEquivalentTo ext b a"
  by (auto simp: valueEquivalentTo_def val_EquivalentTo_def split: option.splits)

lemma EquivalentTo_children_refl:
  "\<forall>c \<in> set cs. EquivalentTo ext c c \<Longrightarrow> EquivalentTo_children ext cs cs"
  by (induction cs) simp_all

lemma EquivalentTo_refl: "EquivalentTo ext e e"
proof (induction e)
  case (Expr b t cs)
  then have "EquivalentTo_children ext cs cs" by (intro EquivalentTo_children_refl) blast
  then show ?case by simp
qed

lemma EquivalentTo_sym_aux:
  "EquivalentTo ext e e' = EquivalentTo ext e' e"
  "length ours = length theirs \<Longrightarrow>
     EquivalentTo_children ext ours theirs = EquivalentTo_children ext theirs ours"
proof (induction ext e e' and ext ours theirs rule: EquivalentTo_EquivalentTo_children.induct)
  case (1 ext b t ours b' t' theirs)
  show ?case
  proof (cases "valueEquivalentTo ext (Expr b t ours) (Expr b' t' theirs)")
    case True
    then show ?thesis using valueEquivalentTo_sym [of ext "Expr b t ours" "Expr b' t' theirs"] by simp
  next
    case False
    then have f': "\<not> valueEquivalentTo ext (Expr b' t' theirs) (Expr b t ours)"
      using valueEquivalentTo_sym [of ext "Expr b t ours" "Expr b' t' theirs"] by simp
    show ?thesis
    proof (cases "t = t' \<and> length ours = length theirs")
      case True
      then show ?thesis using False f' "1.IH" by auto
    next
      case False
      then show ?thesis using \<open>\<not> valueEquivalentTo ext (Expr b t ours) (Expr b' t' theirs)\<close> f' by auto
    qed
  qed
next
  case (2 ext theirs)
  then show ?case by (cases theirs) simp_all
next
  case (3 ext child ours)
  then show ?case by simp
next
  case (4 ext child ours their theirs)
  then show ?case by auto
qed

lemma valueEquivalentTo_constants:
  "fst (Value ext e) = Some v \<Longrightarrow> fst (Value ext e') = Some v \<Longrightarrow> EquivalentTo ext e e'"
  by (cases e; cases e')
     (simp add: valueEquivalentTo_def val_EquivalentTo_def del: Value.simps)

text \<open>
  C4.  \<^verbatim>\<open>EquivalentTo\<close> is reflexive and symmetric.  It has false positives: an OR node
  that propagates NULL, is not volatile, has an empty cache, and has the constant NULL but
  not the constant MISSING among its operands, is equivalent to every expression whose
  \<^verbatim>\<open>Value()\<close> is the constant NULL, because its own \<^verbatim>\<open>Value()\<close> is the propagated NULL;
  on every item on which its operands evaluate and one of them is true, it evaluates to
  TRUE, while the other expression, if it evaluates to its constant, gives NULL.
\<close>

theorem EquivalentTo_Or_false_positive:
  "EquivalentTo ext e e
   \<and> (EquivalentTo ext e e' \<longleftrightarrow> EquivalentTo ext e' e)
   \<and> (valuePtr b = None \<and> \<not> volatile b \<and> PropagatesNull (Expr b TOr cs)
        \<and> (\<exists>c \<in> set cs. fst (Value ext c) = Some NULL_VALUE)
        \<and> \<not> (\<exists>c \<in> set cs. fst (Value ext c) = Some MISSING_VALUE)
        \<and> fst (Value ext other) = Some NULL_VALUE
        \<and> Evaluate ext other item = Inr NULL_VALUE
        \<and> Eval_operands ext cs item = Inr args \<and> (\<exists>a \<in> set args. Truth a)
      \<longrightarrow> EquivalentTo ext (Expr b TOr cs) other
          \<and> EquivalentTo ext other (Expr b TOr cs)
          \<and> Evaluate ext (Expr b TOr cs) item = Inr TRUE_VALUE
          \<and> Evaluate ext (Expr b TOr cs) item \<noteq> Evaluate ext other item)"
proof -
  have fp: "valuePtr b = None \<and> \<not> volatile b \<and> PropagatesNull (Expr b TOr cs)
        \<and> (\<exists>c \<in> set cs. fst (Value ext c) = Some NULL_VALUE)
        \<and> \<not> (\<exists>c \<in> set cs. fst (Value ext c) = Some MISSING_VALUE)
        \<and> fst (Value ext other) = Some NULL_VALUE
        \<and> Evaluate ext other item = Inr NULL_VALUE
        \<and> Eval_operands ext cs item = Inr args \<and> (\<exists>a \<in> set args. Truth a)
      \<longrightarrow> EquivalentTo ext (Expr b TOr cs) other
          \<and> EquivalentTo ext other (Expr b TOr cs)
          \<and> Evaluate ext (Expr b TOr cs) item = Inr TRUE_VALUE
          \<and> Evaluate ext (Expr b TOr cs) item \<noteq> Evaluate ext other item"
  proof (intro impI)
    assume h: "valuePtr b = None \<and> \<not> volatile b \<and> PropagatesNull (Expr b TOr cs)
        \<and> (\<exists>c \<in> set cs. fst (Value ext c) = Some NULL_VALUE)
        \<and> \<not> (\<exists>c \<in> set cs. fst (Value ext c) = Some MISSING_VALUE)
        \<and> fst (Value ext other) = Some NULL_VALUE
        \<and> Evaluate ext other item = Inr NULL_VALUE
        \<and> Eval_operands ext cs item = Inr args \<and> (\<exists>a \<in> set args. Truth a)"
    then have vp: "valuePtr b = None" by blast
    have v: "fst (Value ext (Expr b TOr cs)) = Some NULL_VALUE"
      unfolding Value_uncached [OF vp, of ext TOr cs] using h
      by (simp del: PropagatesMissing.simps PropagatesNull.simps Evaluate.simps Value.simps)
    have o: "fst (Value ext other) = Some NULL_VALUE" using h by blast
    have e1: "EquivalentTo ext (Expr b TOr cs) other" by (rule valueEquivalentTo_constants [OF v o])
    have e2: "EquivalentTo ext other (Expr b TOr cs)" by (rule valueEquivalentTo_constants [OF o v])
    have ops: "Eval_operands ext cs item = Inr args" and tr: "\<exists>a \<in> set args. Truth a"
      using h by blast+
    have t: "Evaluate ext (Expr b TOr cs) item = Inr TRUE_VALUE"
      by (rule Or_Evaluate_true [OF ops tr])
    have n: "Evaluate ext other item = Inr NULL_VALUE" using h by blast
    show "EquivalentTo ext (Expr b TOr cs) other
          \<and> EquivalentTo ext other (Expr b TOr cs)
          \<and> Evaluate ext (Expr b TOr cs) item = Inr TRUE_VALUE
          \<and> Evaluate ext (Expr b TOr cs) item \<noteq> Evaluate ext other item"
      using e1 e2 t unfolding t n by (simp add: TRUE_VALUE_def NULL_VALUE_def)
  qed
  show ?thesis
    using EquivalentTo_refl [of ext e] EquivalentTo_sym_aux(1) [of ext e e'] fp by blast
qed

theorem EquivalentTo_Or_false_positive_witness:
  "EquivalentTo extNull (Expr newBase TOr [exIdent ''x'', exNull]) exNull
   \<and> EquivalentTo extNull exNull (Expr newBase TOr [exIdent ''x'', exNull])
   \<and> Evaluate extNull (Expr newBase TOr [exIdent ''x'', exNull])
        (Some (ObjectVal [(''x'', BoolVal True)])) = Inr TRUE_VALUE
   \<and> Evaluate extNull exNull (Some (ObjectVal [(''x'', BoolVal True)])) = Inr NULL_VALUE
   \<and> Inr TRUE_VALUE \<noteq> (Inr NULL_VALUE :: error + val)"
proof -
  let ?item = "Some (ObjectVal [(''x'', BoolVal True)])"
  have n: "valuePtr newBase = None" "\<not> volatile newBase"
    by (simp_all add: newBase_def)
  have p: "PropagatesNull (Expr newBase TOr [exIdent ''x'', exNull])"
    by (simp add: exIdent_def exNull_def newBase_def)
  have e: "Eval_operands extNull [exIdent ''x'', exNull] ?item = Inr [BoolVal True, NULL_VALUE]"
    by (simp add: exIdent_def exNull_def extNull_def extExample_def Field_def)
  have c: "\<exists>c \<in> set [exIdent ''x'', exNull]. fst (Value extNull c) = Some NULL_VALUE"
    using Value_example_null by simp
  have m: "\<not> (\<exists>c \<in> set [exIdent ''x'', exNull]. fst (Value extNull c) = Some MISSING_VALUE)"
    using Value_example_null Value_example_ident
    by (simp add: NULL_VALUE_def MISSING_VALUE_def)
  have o: "Evaluate extNull exNull ?item = Inr NULL_VALUE"
    by (simp add: exNull_def extNull_def)
  have t: "\<exists>a \<in> set [BoolVal True, NULL_VALUE]. Truth a" by simp
  from EquivalentTo_Or_false_positive [of extNull exNull exNull newBase
      "[exIdent ''x'', exNull]" exNull ?item "[BoolVal True, NULL_VALUE]"]
    n p e c m o t Value_example_null
  have "EquivalentTo extNull (Expr newBase TOr [exIdent ''x'', exNull]) exNull
     \<and> EquivalentTo extNull exNull (Expr newBase TOr [exIdent ''x'', exNull])
     \<and> Evaluate extNull (Expr newBase TOr [exIdent ''x'', exNull]) ?item = Inr TRUE_VALUE"
    by blast
  then show ?thesis using o by (simp add: NULL_VALUE_def TRUE_VALUE_def)
qed

section \<open>Filter covers of OR (expression/logic_or.go)\<close>

text \<open>
  A cover map is a Go \<^verbatim>\<open>map[string]value.Value\<close> from expression text to value: a finite
  map.  \<^verbatim>\<open>_COVERS_POOL.Get()\<close> hands out an empty map (the pool clears what is put back).
\<close>

type_synonym covers = "(string, val) fmap"

text \<open>
  The inner loop of \<^verbatim>\<open>Or.FilterCovers\<close>: every key of \<open>c\<close> that \<open>ci\<close> lacks, or whose
  value in \<open>c\<close> does not compare \<^verbatim>\<open>Equals\<close>-true to the one in \<open>ci\<close>, is deleted from
  \<open>c\<close>.
\<close>

definition intersectCovers :: "covers \<Rightarrow> covers \<Rightarrow> covers" where
  "intersectCovers c ci =
     fmfilter (\<lambda>s. case fmlookup ci s of
                      None \<Rightarrow> False
                    | Some vi \<Rightarrow> (case fmlookup c s of None \<Rightarrow> False | Some v \<Rightarrow> Truth (Equals v vi))) c"

text \<open>
  \<^verbatim>\<open>FilterCovers\<close>.  For \<^verbatim>\<open>Or\<close> it is the method of logic_or.go: \<open>Or_FilterCovers\<close>
  is its body and \<open>Or_FilterCovers_loop\<close> its loop over the operands from the second
  on, whose result \<open>None\<close> is the early \<^verbatim>\<open>return covers\<close> at an operand without
  covers.  \<^verbatim>\<open>this.operands[0]\<close> panics when there is no operand.  The method of every other
  kind is the parameter \<open>other\<close> (the default of \<^verbatim>\<open>ExpressionBase\<close> returns the map as it
  is; comparisons and AND override it in files outside these sources).
\<close>

fun FilterCovers :: "(expr \<Rightarrow> covers \<Rightarrow> covers) \<Rightarrow> expr \<Rightarrow> covers \<Rightarrow> error + covers"
and Or_FilterCovers :: "(expr \<Rightarrow> covers \<Rightarrow> covers) \<Rightarrow> expr list \<Rightarrow> covers \<Rightarrow> error + covers"
and Or_FilterCovers_loop ::
  "(expr \<Rightarrow> covers \<Rightarrow> covers) \<Rightarrow> covers \<Rightarrow> expr list \<Rightarrow> error + covers option" where
  "FilterCovers other (Expr b t operands) covers =
     (if t = TOr then Or_FilterCovers other operands covers
      else Inr (other (Expr b t operands) covers))"
| "Or_FilterCovers other [] covers = Inl (Panic ''index out of range'')"
| "Or_FilterCovers other (operand0 # rest) covers =
     (case FilterCovers other operand0 fmempty of
        Inl err \<Rightarrow> Inl err
      | Inr c \<Rightarrow>
          if c = fmempty then Inr covers
          else (case Or_FilterCovers_loop other c rest of
                  Inl err \<Rightarrow> Inl err
                | Inr None \<Rightarrow> Inr covers
                | Inr (Some c') \<Rightarrow> Inr (covers ++\<^sub>f c')))"
| "Or_FilterCovers_loop other c [] = Inr (Some c)"
| "Or_FilterCovers_loop other c (operand # rest) =
     (case FilterCovers other operand fmempty of
        Inl err \<Rightarrow> Inl err
      | Inr ci \<Rightarrow>
          if ci = fmempty then Inr None
          else Or_FilterCovers_loop other (intersectCovers c ci) rest)"














text \<open>
  An OR node built with a single operand passes that operand's covers on as they are.
\<close>

lemma Or_FilterCovers_single:
  "FilterCovers other (Expr b TOr [operand]) covers =
     (case FilterCovers other operand fmempty of
        Inl err \<Rightarrow> Inl err
      | Inr c \<Rightarrow> Inr (covers ++\<^sub>f c))"
  by (auto split: sum.split)




section \<open>Plan builder (plan/builder.go)\<close>

text \<open>
  The algebra nodes the builder reads (package algebra), with the accessors it calls: a FROM
  term is a keyspace term, a parent term, or a join, nest or unnest over a left term; a
  subselect has optional FROM, LET, WHERE and GROUP parts and a projection.  A nil pointer
  or nil slice is \<open>None\<close>.
\<close>

record KeyspaceTerm =
  ktNamespace :: string
  ktKeyspace :: string
  ktKeys :: "expr option"

datatype FromTerm =
    FromKeyspaceTerm KeyspaceTerm
  | FromParentTerm
  | FromJoin FromTerm KeyspaceTerm
  | FromNest FromTerm KeyspaceTerm
  | FromUnnest FromTerm expr

record Projection =
  pDistinct :: bool
  pTerms :: "expr list"

record Group =
  gBy :: "expr list"
  gLetting :: "(string \<times> expr) list option"
  gHaving :: "expr option"

record Subselect =
  sFrom :: "FromTerm option"
  sLet :: "(string \<times> expr) list option"
  sWhere :: "expr option"
  sGroup :: "Group option"
  sProjection :: "Projection option"

text \<open>
  The catalog (package catalog): \<^verbatim>\<open>site.NamespaceByName\<close>, \<^verbatim>\<open>namespace.KeyspaceByName\<close>
  and \<^verbatim>\<open>keyspace.IndexByPrimary\<close> each return a result or an error.
\<close>

record Keyspace =
  ksNamespace :: string
  ksName :: string
  ksPrimary :: "error + string"

type_synonym Namespace = "string \<Rightarrow> error + Keyspace"
type_synonym Site = "string \<Rightarrow> error + Namespace"

text \<open>
  The plan operators \<^verbatim>\<open>VisitSubselect\<close> creates, each constructor holding the arguments of
  its \<^verbatim>\<open>New...\<close> function.
\<close>

datatype Operator =
    PrimaryScan string
  | KeyScan expr
  | DummyScan
  | Fetch Keyspace KeyspaceTerm
  | Join Keyspace FromTerm KeyspaceTerm
  | Nest Keyspace FromTerm KeyspaceTerm
  | Unnest FromTerm expr
  | Let "(string \<times> expr) list"
  | Filter expr
  | InitialGroup "expr list" "expr list"
  | IntermediateGroup "expr list" "expr list"
  | FinalGroup "expr list" "expr list"
  | InitialProject "Projection option"
  | FinalProject
  | Distinct
  | Sequence "Operator list"
  | Parallel Operator

text \<open>
  The builder.  \<^verbatim>\<open>children\<close> and \<^verbatim>\<open>subChildren\<close> are Go slices that only grow by
  \<^verbatim>\<open>append\<close>; \<^verbatim>\<open>NewSequence(this.subChildren...)\<close> keeps the slice as it is at the call
  (its length is part of the slice value), so a later \<^verbatim>\<open>append\<close> to
  \<^verbatim>\<open>this.subChildren\<close> does not show in the sequence.  Lists as values model exactly that.
\<close>

record builder =
  site :: Site
  projectInitial :: bool
  children :: "Operator list"
  subChildren :: "Operator list"

text \<open>
  \<^verbatim>\<open>collectAggregates\<close>: the type assertion \<^verbatim>\<open>expr.(algebra.Aggregate)\<close> is the parameter
  \<open>isAggregate\<close>.
\<close>

fun collectAggregates :: "(expr \<Rightarrow> bool) \<Rightarrow> expr list \<Rightarrow> expr list \<Rightarrow> expr list" where
  "collectAggregates isAggregate aggs [] = aggs"
| "collectAggregates isAggregate aggs (Expr b t cs # exprs) =
     (let aggs1 = (if isAggregate (Expr b t cs) then aggs @ [Expr b t cs] else aggs);
          aggs2 = collectAggregates isAggregate aggs1 cs
      in collectAggregates isAggregate aggs2 exprs)"

text \<open>
  The two catalog lookups that \<^verbatim>\<open>VisitKeyspaceTerm\<close>, \<^verbatim>\<open>VisitJoin\<close> and \<^verbatim>\<open>VisitNest\<close>
  start with, and the visitors of the FROM terms; \<open>Accept_FromTerm\<close> is the dispatch of
  \<^verbatim>\<open>node.Accept(this)\<close>.  A visitor returns the operator it made (or nil) and the builder
  it changed, or an error.
\<close>

definition keyspaceOf :: "builder \<Rightarrow> string \<Rightarrow> string \<Rightarrow> error + Keyspace" where
  "keyspaceOf this namespaceName keyspaceName =
     (case site this namespaceName of
        Inl err \<Rightarrow> Inl err
      | Inr namespace \<Rightarrow> namespace keyspaceName)"

definition VisitKeyspaceTerm :: "builder \<Rightarrow> KeyspaceTerm \<Rightarrow> error + (Operator option \<times> builder)" where
  "VisitKeyspaceTerm this node =
     (case keyspaceOf this (ktNamespace node) (ktKeyspace node) of
        Inl err \<Rightarrow> Inl err
      | Inr keyspace \<Rightarrow>
          (case (case ktKeys node of
                   Some ks \<Rightarrow> Inr (this\<lparr>children := children this @ [KeyScan ks]\<rparr>)
                 | None \<Rightarrow>
                     (case ksPrimary keyspace of
                        Inl err \<Rightarrow> Inl err
                      | Inr index \<Rightarrow> Inr (this\<lparr>children := children this @ [PrimaryScan index]\<rparr>))) of
             Inl err \<Rightarrow> Inl err
           | Inr this1 \<Rightarrow>
               (let fetch = Fetch keyspace node
                in Inr (Some fetch, this1\<lparr>subChildren := subChildren this1 @ [fetch]\<rparr>))))"

fun Accept_FromTerm :: "builder \<Rightarrow> FromTerm \<Rightarrow> error + (Operator option \<times> builder)" where
  "Accept_FromTerm this (FromKeyspaceTerm node) = VisitKeyspaceTerm this node"
| "Accept_FromTerm this FromParentTerm = Inr (None, this)"
| "Accept_FromTerm this (FromJoin left right) =
     (case Accept_FromTerm this left of
        Inl err \<Rightarrow> Inl err
      | Inr (_, this1) \<Rightarrow>
          (case keyspaceOf this1 (ktNamespace right) (ktKeyspace right) of
             Inl err \<Rightarrow> Inl err
           | Inr keyspace \<Rightarrow>
               (let join = Join keyspace left right
                in Inr (Some join, this1\<lparr>subChildren := subChildren this1 @ [join]\<rparr>))))"
| "Accept_FromTerm this (FromNest left right) =
     (case Accept_FromTerm this left of
        Inl err \<Rightarrow> Inl err
      | Inr (_, this1) \<Rightarrow>
          (case keyspaceOf this1 (ktNamespace right) (ktKeyspace right) of
             Inl err \<Rightarrow> Inl err
           | Inr keyspace \<Rightarrow>
               (let nest = Nest keyspace left right
                in Inr (Some nest, this1\<lparr>subChildren := subChildren this1 @ [nest]\<rparr>))))"
| "Accept_FromTerm this (FromUnnest left e) =
     (case Accept_FromTerm this left of
        Inl err \<Rightarrow> Inl err
      | Inr (_, this1) \<Rightarrow>
          (let unnest = Unnest left e
           in Inr (Some unnest, this1\<lparr>subChildren := subChildren this1 @ [unnest]\<rparr>)))"

definition visitGroup :: "(expr \<Rightarrow> bool) \<Rightarrow> builder \<Rightarrow> Group \<Rightarrow> expr list \<Rightarrow> builder" where
  "visitGroup isAggregate this grp aggs0 =
     (let letting = gLetting grp;
          aggs1 = collectAggregates isAggregate aggs0
                    (case letting of None \<Rightarrow> [] | Some bindings \<Rightarrow> map snd bindings);
          having = gHaving grp;
          aggs = (case having of None \<Rightarrow> aggs1 | Some h \<Rightarrow> collectAggregates isAggregate aggs1 [h]);
          this1 = this\<lparr>subChildren := subChildren this @ [InitialGroup (gBy grp) aggs]\<rparr>;
          this2 = this1\<lparr>subChildren := subChildren this1 @ [IntermediateGroup (gBy grp) aggs]\<rparr>;
          this3 = this2\<lparr>children := children this2 @ [Parallel (Sequence (subChildren this2))]\<rparr>;
          this4 = this3\<lparr>children := children this3 @ [IntermediateGroup (gBy grp) aggs]\<rparr>;
          this5 = this4\<lparr>children := children this4 @ [FinalGroup (gBy grp) aggs]\<rparr>;
          this6 = this5\<lparr>subChildren := []\<rparr>;
          this7 = (case letting of None \<Rightarrow> this6
                   | Some bindings \<Rightarrow> this6\<lparr>subChildren := subChildren this6 @ [Let bindings]\<rparr>)
      in (case having of None \<Rightarrow> this7
          | Some h \<Rightarrow> this7\<lparr>subChildren := subChildren this7 @ [Filter h]\<rparr>))"

text \<open>
  \<^verbatim>\<open>VisitSubselect\<close>.  \<^verbatim>\<open>projection.Distinct()\<close> on a nil projection is a nil-pointer
  panic.
\<close>

definition VisitSubselect ::
  "(expr \<Rightarrow> bool) \<Rightarrow> builder \<Rightarrow> Subselect \<Rightarrow> error + (Operator option \<times> builder)" where
  "VisitSubselect isAggregate this0 node =
     (let this = this0\<lparr>children := [], subChildren := []\<rparr> in
      case (case sFrom node of
              Some frm \<Rightarrow> (case Accept_FromTerm this frm of Inl err \<Rightarrow> Inl err | Inr (_, t) \<Rightarrow> Inr t)
            | None \<Rightarrow> Inr (this\<lparr>children := children this @ [DummyScan]\<rparr>)) of
        Inl err \<Rightarrow> Inl err
      | Inr this1 \<Rightarrow>
          (let this2 = (case sLet node of None \<Rightarrow> this1
                        | Some bindings \<Rightarrow> this1\<lparr>subChildren := subChildren this1 @ [Let bindings]\<rparr>);
               this3 = (case sWhere node of None \<Rightarrow> this2
                        | Some w \<Rightarrow> this2\<lparr>subChildren := subChildren this2 @ [Filter w]\<rparr>);
               projection = sProjection node;
               aggs = (case projection of None \<Rightarrow> []
                       | Some p \<Rightarrow> collectAggregates isAggregate [] (pTerms p));
               grp = (case sGroup node of
                          None \<Rightarrow> if length aggs > 0
                                    then Some \<lparr>gBy = [], gLetting = None, gHaving = None\<rparr> else None
                        | Some g \<Rightarrow> Some g);
               this4 = (case grp of None \<Rightarrow> this3 | Some g \<Rightarrow> visitGroup isAggregate this3 g aggs);
               this5 = this4\<lparr>subChildren := subChildren this4 @ [InitialProject projection]\<rparr>
           in case projection of
                None \<Rightarrow> Inl (Panic ''nil projection'')
              | Some p \<Rightarrow>
                  (let this6 = (if pDistinct p
                                then this5\<lparr>subChildren := subChildren this5 @ [FinalProject]\<rparr>
                                else this5);
                       this7 = this6\<lparr>children := children this6 @ [Parallel (Sequence (subChildren this6))]\<rparr>;
                       this8 = (if pDistinct p
                                then this7\<lparr>subChildren := subChildren this7 @ [Distinct]\<rparr>
                                else this7)
                   in Inr (Some (Sequence (children this8)), this8))))"

text \<open>Whether a \<^verbatim>\<open>Distinct\<close> operator occurs anywhere in a plan.\<close>

fun containsDistinct :: "Operator \<Rightarrow> bool" and containsDistinct_list :: "Operator list \<Rightarrow> bool" where
  "containsDistinct Distinct = True"
| "containsDistinct (Sequence ops) = containsDistinct_list ops"
| "containsDistinct (Parallel op) = containsDistinct op"
| "containsDistinct _ = False"
| "containsDistinct_list [] = False"
| "containsDistinct_list (op # ops) = (containsDistinct op \<or> containsDistinct_list ops)"

definition distinctFree :: "builder \<Rightarrow> bool" where
  "distinctFree this \<longleftrightarrow>
     \<not> containsDistinct_list (children this) \<and> \<not> containsDistinct_list (subChildren this)"

text \<open>
  The example \<^verbatim>\<open>SELECT DISTINCT a FROM default:k\<close> over a catalog with that one keyspace.
\<close>

definition exIsAggregate :: "expr \<Rightarrow> bool" where
  "exIsAggregate e \<longleftrightarrow> TypeOf e = TOther ''count''"

definition newBuilder :: "Site \<Rightarrow> builder" where
  "newBuilder s = \<lparr>site = s, projectInitial = False, children = [], subChildren = []\<rparr>"

definition exKeyspace :: Keyspace where
  "exKeyspace = \<lparr>ksNamespace = ''default'', ksName = ''k'', ksPrimary = Inr ''#primary''\<rparr>"

definition exSite :: Site where
  "exSite namespaceName =
     (if namespaceName = ''default''
      then Inr (\<lambda>keyspaceName. if keyspaceName = ''k'' then Inr exKeyspace
                                else Inl (PlanError ''keyspace not found''))
      else Inl (PlanError ''namespace not found''))"

definition exTerm :: KeyspaceTerm where
  "exTerm = \<lparr>ktNamespace = ''default'', ktKeyspace = ''k'', ktKeys = None\<rparr>"

definition exProjection :: Projection where
  "exProjection = \<lparr>pDistinct = True, pTerms = [exIdent ''a'']\<rparr>"

definition exSelectDistinct :: Subselect where
  "exSelectDistinct =
     \<lparr>sFrom = Some (FromKeyspaceTerm exTerm), sLet = None, sWhere = None, sGroup = None,
      sProjection = Some exProjection\<rparr>"

lemma containsDistinct_list_append:
  "containsDistinct_list (xs @ ys) \<longleftrightarrow> containsDistinct_list xs \<or> containsDistinct_list ys"
  by (induction xs) auto

lemma VisitKeyspaceTerm_distinctFree:
  "VisitKeyspaceTerm this node = Inr (r, this') \<Longrightarrow> distinctFree this \<Longrightarrow> distinctFree this'"
  by (auto simp: VisitKeyspaceTerm_def distinctFree_def containsDistinct_list_append Let_def
           split: sum.splits option.splits)

lemma Accept_FromTerm_distinctFree:
  "Accept_FromTerm this frm = Inr (r, this') \<Longrightarrow> distinctFree this \<Longrightarrow> distinctFree this'"
proof (induction frm arbitrary: r this')
  case (FromKeyspaceTerm node)
  then show ?case using VisitKeyspaceTerm_distinctFree by simp
next
  case FromParentTerm
  then show ?case by simp
next
  case (FromJoin left right)
  then show ?case
    by (fastforce simp: distinctFree_def containsDistinct_list_append Let_def split: sum.splits)
next
  case (FromNest left right)
  then show ?case
    by (fastforce simp: distinctFree_def containsDistinct_list_append Let_def split: sum.splits)
next
  case (FromUnnest left e)
  then show ?case
    by (fastforce simp: distinctFree_def containsDistinct_list_append Let_def split: sum.splits)
qed

lemma visitGroup_distinctFree:
  "distinctFree this \<Longrightarrow> distinctFree (visitGroup isAggregate this grp aggs)"
  by (auto simp: visitGroup_def distinctFree_def containsDistinct_list_append Let_def
           split: option.splits)

lemma VisitSubselect_example:
  "VisitSubselect exIsAggregate (newBuilder exSite) exSelectDistinct =
     Inr (Some (Sequence [PrimaryScan ''#primary'',
                          Parallel (Sequence [Fetch exKeyspace exTerm,
                                              InitialProject (Some exProjection),
                                              FinalProject])]),
          \<lparr>site = exSite, projectInitial = False,
           children = [PrimaryScan ''#primary'',
                       Parallel (Sequence [Fetch exKeyspace exTerm,
                                           InitialProject (Some exProjection),
                                           FinalProject])],
           subChildren = [Fetch exKeyspace exTerm, InitialProject (Some exProjection),
                          FinalProject, Distinct]\<rparr>)"
  by (simp add: VisitSubselect_def newBuilder_def exSelectDistinct_def VisitKeyspaceTerm_def
        keyspaceOf_def exSite_def exTerm_def exProjection_def exKeyspace_def exIdent_def Let_def
        exIsAggregate_def)

text \<open>
  C8 (what the code does).  The claim asks for a final \<^verbatim>\<open>Distinct\<close> after the
  \<^verbatim>\<open>Parallel\<close> wrapper of a DISTINCT subselect.  Whenever \<^verbatim>\<open>VisitSubselect\<close> returns a
  plan, that plan contains no \<^verbatim>\<open>Distinct\<close> operator at all.  For a DISTINCT projection
  the plan's last operator is the \<^verbatim>\<open>Parallel\<close> whose sequence ends with
  \<^verbatim>\<open>InitialProject, FinalProject\<close> (this half of the claim holds), and the \<^verbatim>\<open>Distinct\<close>
  is appended to the builder's \<^verbatim>\<open>subChildren\<close>, which no operator of the plan reads.
\<close>

theorem VisitSubselect_Distinct_lost:
  assumes "VisitSubselect isAggregate this0 node = Inr (r, this')"
  shows "\<exists>plan p. r = Some plan \<and> sProjection node = Some p \<and> \<not> containsDistinct plan
           \<and> (pDistinct p \<longrightarrow>
                 (\<exists>pre sub. plan = Sequence (pre @ [Parallel (Sequence (sub @ [InitialProject (Some p), FinalProject]))])
                    \<and> subChildren this' = sub @ [InitialProject (Some p), FinalProject, Distinct]))"
proof -
  define start where "start = this0\<lparr>children := [], subChildren := []\<rparr>"
  define fromStage where "fromStage =
     (case sFrom node of
        Some frm \<Rightarrow> (case Accept_FromTerm start frm of Inl err \<Rightarrow> Inl err | Inr (_, t) \<Rightarrow> Inr t)
      | None \<Rightarrow> Inr (start\<lparr>children := children start @ [DummyScan]\<rparr>))"
  define finish where "finish = (\<lambda>this1.
          (let this2 = (case sLet node of None \<Rightarrow> this1
                        | Some bindings \<Rightarrow> this1\<lparr>subChildren := subChildren this1 @ [Let bindings]\<rparr>);
               this3 = (case sWhere node of None \<Rightarrow> this2
                        | Some w \<Rightarrow> this2\<lparr>subChildren := subChildren this2 @ [Filter w]\<rparr>);
               projection = sProjection node;
               aggs = (case projection of None \<Rightarrow> []
                       | Some p \<Rightarrow> collectAggregates isAggregate [] (pTerms p));
               grp = (case sGroup node of
                          None \<Rightarrow> if length aggs > 0
                                    then Some \<lparr>gBy = [], gLetting = None, gHaving = None\<rparr> else None
                        | Some g \<Rightarrow> Some g);
               this4 = (case grp of None \<Rightarrow> this3 | Some g \<Rightarrow> visitGroup isAggregate this3 g aggs);
               this5 = this4\<lparr>subChildren := subChildren this4 @ [InitialProject projection]\<rparr>
           in case projection of
                None \<Rightarrow> Inl (Panic ''nil projection'')
              | Some p \<Rightarrow>
                  (let this6 = (if pDistinct p
                                then this5\<lparr>subChildren := subChildren this5 @ [FinalProject]\<rparr>
                                else this5);
                       this7 = this6\<lparr>children := children this6 @ [Parallel (Sequence (subChildren this6))]\<rparr>;
                       this8 = (if pDistinct p
                                then this7\<lparr>subChildren := subChildren this7 @ [Distinct]\<rparr>
                                else this7)
                   in Inr (Some (Sequence (children this8)), this8))))"
  have unfolded: "VisitSubselect isAggregate this0 node =
      (case fromStage of Inl err \<Rightarrow> Inl err | Inr this1 \<Rightarrow> finish this1)"
    by (simp only: VisitSubselect_def fromStage_def start_def finish_def Let_def)
  from assms obtain this1 where f: "fromStage = Inr this1" and g: "finish this1 = Inr (r, this')"
    unfolding unfolded by (cases fromStage) simp_all
  have d0: "distinctFree start" by (simp add: start_def distinctFree_def)
  have d1: "distinctFree this1"
  proof (cases "sFrom node")
    case None
    with f d0 show ?thesis
      by (auto simp: fromStage_def distinctFree_def containsDistinct_list_append)
  next
    case (Some frm)
    with f obtain x where "Accept_FromTerm start frm = Inr (x, this1)"
      by (auto simp: fromStage_def split: sum.splits)
    from Accept_FromTerm_distinctFree [OF this d0] show ?thesis .
  qed
  define this2 where "this2 = (case sLet node of None \<Rightarrow> this1
                        | Some bindings \<Rightarrow> this1\<lparr>subChildren := subChildren this1 @ [Let bindings]\<rparr>)"
  define this3 where "this3 = (case sWhere node of None \<Rightarrow> this2
                        | Some w \<Rightarrow> this2\<lparr>subChildren := subChildren this2 @ [Filter w]\<rparr>)"
  define aggs where "aggs = (case sProjection node of None \<Rightarrow> []
                       | Some p \<Rightarrow> collectAggregates isAggregate [] (pTerms p))"
  define grp where "grp = (case sGroup node of
                          None \<Rightarrow> if length aggs > 0
                                    then Some \<lparr>gBy = [], gLetting = None, gHaving = None\<rparr> else None
                        | Some g \<Rightarrow> Some g)"
  define this4 where "this4 = (case grp of None \<Rightarrow> this3 | Some g \<Rightarrow> visitGroup isAggregate this3 g aggs)"
  have d2: "distinctFree this2" using d1
    by (auto simp: this2_def distinctFree_def containsDistinct_list_append split: option.splits)
  have d3: "distinctFree this3" using d2
    by (auto simp: this3_def distinctFree_def containsDistinct_list_append split: option.splits)
  have d4: "distinctFree this4" using d3 visitGroup_distinctFree
    by (auto simp: this4_def split: option.splits)
  have run: "finish this1 =
      (case sProjection node of
         None \<Rightarrow> Inl (Panic ''nil projection'')
       | Some p \<Rightarrow>
           (let this5 = this4\<lparr>subChildren := subChildren this4 @ [InitialProject (sProjection node)]\<rparr>;
                this6 = (if pDistinct p
                         then this5\<lparr>subChildren := subChildren this5 @ [FinalProject]\<rparr>
                         else this5);
                this7 = this6\<lparr>children := children this6 @ [Parallel (Sequence (subChildren this6))]\<rparr>;
                this8 = (if pDistinct p
                         then this7\<lparr>subChildren := subChildren this7 @ [Distinct]\<rparr>
                         else this7)
            in Inr (Some (Sequence (children this8)), this8)))"
    by (simp only: finish_def this2_def this3_def aggs_def grp_def this4_def Let_def)
  from g run obtain p where p: "sProjection node = Some p"
    by (cases "sProjection node") auto
  show ?thesis
  proof (cases "pDistinct p")
    case True
    with g run p have r: "r = Some (Sequence (children this4 @
          [Parallel (Sequence (subChildren this4 @ [InitialProject (Some p), FinalProject]))]))"
      and t: "subChildren this' = subChildren this4 @ [InitialProject (Some p), FinalProject, Distinct]"
      by (auto simp: Let_def)
    have "\<not> containsDistinct (Sequence (children this4 @
          [Parallel (Sequence (subChildren this4 @ [InitialProject (Some p), FinalProject]))]))"
      using d4 by (simp add: distinctFree_def containsDistinct_list_append)
    with r t p True show ?thesis by blast
  next
    case False
    with g run p have r: "r = Some (Sequence (children this4 @
          [Parallel (Sequence (subChildren this4 @ [InitialProject (Some p)]))]))"
      by (auto simp: Let_def)
    have "\<not> containsDistinct (Sequence (children this4 @
          [Parallel (Sequence (subChildren this4 @ [InitialProject (Some p)]))]))"
      using d4 by (simp add: distinctFree_def containsDistinct_list_append)
    with r p False show ?thesis by blast
  qed
qed

theorem VisitSubselect_Distinct_lost_witness:
  "VisitSubselect exIsAggregate (newBuilder exSite) exSelectDistinct =
     Inr (Some (Sequence [PrimaryScan ''#primary'',
                          Parallel (Sequence [Fetch exKeyspace exTerm,
                                              InitialProject (Some exProjection),
                                              FinalProject])]),
          \<lparr>site = exSite, projectInitial = False,
           children = [PrimaryScan ''#primary'',
                       Parallel (Sequence [Fetch exKeyspace exTerm,
                                           InitialProject (Some exProjection),
                                           FinalProject])],
           subChildren = [Fetch exKeyspace exTerm, InitialProject (Some exProjection),
                          FinalProject, Distinct]\<rparr>)
   \<and> pDistinct exProjection
   \<and> \<not> containsDistinct (Sequence [PrimaryScan ''#primary'',
                          Parallel (Sequence [Fetch exKeyspace exTerm,
                                              InitialProject (Some exProjection),
                                              FinalProject])])"
  using VisitSubselect_Distinct_lost [OF VisitSubselect_example] VisitSubselect_example
  by (simp add: exProjection_def)

section \<open>DistinctScan (execution/scan_distinct.go)\<close>

text \<open>
  An attachment of an annotated value is a Go \<^verbatim>\<open>interface{}\<close>.  The scan looks at its
  dynamic type only through the two type assertions \<^verbatim>\<open>m.(map[string]interface{})\<close> and
  \<^verbatim>\<open>k.(string)\<close>, so the model distinguishes nil, a string, a string-keyed map and
  everything else.
\<close>

datatype any =
    AnyNil
  | AnyString string
  | AnyMap "(string \<times> any) list"
  | AnyValue val

text \<open>
  Modelled from the spec: an \<^verbatim>\<open>AnnotatedValue\<close> wraps a value with a mapping
  \<^verbatim>\<open>attachments : string -> any\<close>; \<^verbatim>\<open>GetAttachment\<close> of a key that is not attached is nil,
  as is the lookup of an absent key in a Go map.  \<^verbatim>\<open>SetBit\<close> records the replica bit.
\<close>

record AnnotatedValue =
  payload :: val
  attachments :: "(string \<times> any) list"
  bit :: nat

definition GetAttachment :: "AnnotatedValue \<Rightarrow> string \<Rightarrow> any" where
  "GetAttachment item key = (case map_of (attachments item) key of None \<Rightarrow> AnyNil | Some a \<Rightarrow> a)"

definition SetBit :: "AnnotatedValue \<Rightarrow> nat \<Rightarrow> AnnotatedValue" where
  "SetBit item b = item\<lparr>bit := b\<rparr>"

text \<open>
  The request context collects the errors published through \<^verbatim>\<open>context.Error\<close>.
\<close>

record Context =
  errors :: "error list"

definition context_Error :: "Context \<Rightarrow> error \<Rightarrow> Context" where
  "context_Error context e = context\<lparr>errors := errors context @ [e]\<rparr>"

text \<open>
  The operator: \<^verbatim>\<open>keys\<close> is the pooled \<^verbatim>\<open>map[string]bool\<close> (only \<^verbatim>\<open>true\<close> is ever
  stored, and only the presence of a key is read), \<open>outputItems\<close> the items that went
  into the output channel, in order.

  Modelled from the spec: \<^verbatim>\<open>base.sendItem\<close> forwards the item to the output channel and
  answers false when the operator was stopped instead, in which case nothing is forwarded.
  Whether a send goes through is decided outside the operator; it is the parameter
  \<open>accepts\<close>, a function of what was forwarded so far and of the item.
\<close>

record DistinctScan =
  keys :: "string fset"
  scanBit :: nat
  outputItems :: "AnnotatedValue list"

definition sendItem ::
  "(AnnotatedValue list \<Rightarrow> AnnotatedValue \<Rightarrow> bool) \<Rightarrow> DistinctScan \<Rightarrow> AnnotatedValue
     \<Rightarrow> bool \<times> DistinctScan" where
  "sendItem accepts this item =
     (if accepts (outputItems this) item then (True, this\<lparr>outputItems := outputItems this @ [item]\<rparr>)
      else (False, this))"

definition processKey ::
  "(AnnotatedValue list \<Rightarrow> AnnotatedValue \<Rightarrow> bool) \<Rightarrow> DistinctScan \<Rightarrow> AnnotatedValue
     \<Rightarrow> Context \<Rightarrow> int \<Rightarrow> bool \<times> DistinctScan \<times> Context" where
  "processKey accepts this item context limit =
     (case GetAttachment item ''meta'' of
        AnyMap meta \<Rightarrow>
          (case (case map_of meta ''id'' of None \<Rightarrow> AnyNil | Some k \<Rightarrow> k) of
             AnyString key \<Rightarrow>
               if key |\<in>| keys this then (True, this, context)
               else if limit > 0 \<and> int (fcard (keys this)) \<ge> limit then (False, this, context)
               else
                 (let this1 = this\<lparr>keys := finsert key (keys this)\<rparr>;
                      (ok, this2) = sendItem accepts this1 (SetBit item (scanBit this1))
                  in (ok, this2, context))
           | _ \<Rightarrow>
               (False, this,
                context_Error context (InvalidValueError ''Missing or invalid primary key'')))
      | _ \<Rightarrow>
          (False, this, context_Error context (InvalidValueError ''Missing or invalid meta'')))"

text \<open>
  The consuming loop of \<^verbatim>\<open>RunOnce\<close>, for the items the child scan delivers: it goes on
  while \<^verbatim>\<open>processKey\<close> answers true.
\<close>

fun processKeys ::
  "(AnnotatedValue list \<Rightarrow> AnnotatedValue \<Rightarrow> bool) \<Rightarrow> int \<Rightarrow> DistinctScan \<Rightarrow> Context
     \<Rightarrow> AnnotatedValue list \<Rightarrow> DistinctScan \<times> Context" where
  "processKeys accepts limit this context [] = (this, context)"
| "processKeys accepts limit this context (item # items) =
     (case processKey accepts this item context limit of
        (True, this', context') \<Rightarrow> processKeys accepts limit this' context' items
      | (False, this', context') \<Rightarrow> (this', context'))"

text \<open>The primary key of an item: the string under \<^verbatim>\<open>"id"\<close> of its \<^verbatim>\<open>"meta"\<close> map.\<close>

definition primaryKey :: "AnnotatedValue \<Rightarrow> string option" where
  "primaryKey item =
     (case GetAttachment item ''meta'' of
        AnyMap meta \<Rightarrow> (case map_of meta ''id'' of Some (AnyString key) \<Rightarrow> Some key | _ \<Rightarrow> None)
      | _ \<Rightarrow> None)"

definition withKey :: "string \<Rightarrow> AnnotatedValue" where
  "withKey k = \<lparr>payload = NullVal, attachments = [(''meta'', AnyMap [(''id'', AnyString k)])], bit = 0\<rparr>"

definition newDistinctScan :: DistinctScan where
  "newDistinctScan = \<lparr>keys = {||}, scanBit = 0, outputItems = []\<rparr>"

definition newContext :: Context where
  "newContext = \<lparr>errors = []\<rparr>"


text \<open>
  The invariant of the scan: the forwarded items carry pairwise different primary keys,
  each of them recorded in the key set, and there are no more of them than recorded keys.
\<close>

definition scan_inv :: "DistinctScan \<Rightarrow> bool" where
  "scan_inv this \<longleftrightarrow>
     distinct (map primaryKey (outputItems this))
     \<and> (\<forall>it \<in> set (outputItems this). \<exists>k. primaryKey it = Some k \<and> k |\<in>| keys this)
     \<and> length (outputItems this) \<le> fcard (keys this)"

lemma primaryKey_SetBit: "primaryKey (SetBit item b) = primaryKey item"
  by (simp add: primaryKey_def SetBit_def GetAttachment_def)

lemma processKey_Some:
  "primaryKey item = Some key \<Longrightarrow>
   processKey accepts ds item ctx limit =
     (if key |\<in>| keys ds then (True, ds, ctx)
      else if limit > 0 \<and> int (fcard (keys ds)) \<ge> limit then (False, ds, ctx)
      else if accepts (outputItems ds) (SetBit item (scanBit ds))
        then (True, ds\<lparr>keys := finsert key (keys ds),
                outputItems := outputItems ds @ [SetBit item (scanBit ds)]\<rparr>, ctx)
        else (False, ds\<lparr>keys := finsert key (keys ds)\<rparr>, ctx))"
  by (auto simp: processKey_def primaryKey_def sendItem_def split: any.splits option.splits)

lemma processKey_None:
  "primaryKey item = None \<Longrightarrow>
   \<exists>msg. processKey accepts ds item ctx limit
           = (False, ds, context_Error ctx (InvalidValueError msg))"
  by (auto simp: processKey_def primaryKey_def split: any.splits option.splits)

lemma scan_inv_record:
  "scan_inv ds \<Longrightarrow> scan_inv (ds\<lparr>keys := finsert key (keys ds)\<rparr>)"
  unfolding scan_inv_def
  by (auto simp: fcard_finsert_if intro: le_SucI)

lemma scan_inv_forward:
  assumes "scan_inv ds" and "key |\<notin>| keys ds" and "primaryKey item = Some key"
  shows "scan_inv (ds\<lparr>keys := finsert key (keys ds), outputItems := outputItems ds @ [item]\<rparr>)"
proof -
  have fresh: "Some key \<notin> primaryKey ` set (outputItems ds)"
  proof
    assume "Some key \<in> primaryKey ` set (outputItems ds)"
    then obtain it where "it \<in> set (outputItems ds)" and "primaryKey it = Some key" by auto
    with assms(1) have "key |\<in>| keys ds" unfolding scan_inv_def by fastforce
    with assms(2) show False by simp
  qed
  have d: "distinct (map primaryKey (outputItems ds @ [item]))"
    using assms(1) fresh assms(3) by (simp add: scan_inv_def)
  have m: "\<forall>it \<in> set (outputItems ds @ [item]). \<exists>k. primaryKey it = Some k \<and> k |\<in>| finsert key (keys ds)"
    using assms(1,3) unfolding scan_inv_def by auto
  have l: "length (outputItems ds @ [item]) \<le> fcard (finsert key (keys ds))"
    using assms(1,2) by (simp add: scan_inv_def fcard_finsert_if)
  show ?thesis unfolding scan_inv_def using d m l by simp
qed

lemma processKey_inv:
  assumes "scan_inv ds" and "processKey accepts ds item ctx limit = (ok, ds', ctx')"
  shows "scan_inv ds'"
proof (cases "primaryKey item")
  case None
  with processKey_None [OF None, of accepts ds ctx limit] assms show ?thesis by auto
next
  case (Some key)
  have pk: "primaryKey (SetBit item (scanBit ds)) = Some key" using Some by (simp add: primaryKey_SetBit)
  from assms(2) have "ds' = ds \<or> ds' = ds\<lparr>keys := finsert key (keys ds)\<rparr>
      \<or> (key |\<notin>| keys ds \<and> ds' = ds\<lparr>keys := finsert key (keys ds),
            outputItems := outputItems ds @ [SetBit item (scanBit ds)]\<rparr>)"
    by (auto simp: processKey_Some [OF Some] split: if_splits)
  then show ?thesis
    using assms(1) scan_inv_record [OF assms(1), of key] scan_inv_forward [OF assms(1) _ pk]
    by auto
qed

lemma processKey_limit:
  assumes "0 < limit" "int (fcard (keys ds)) \<le> limit"
    and "processKey accepts ds item ctx limit = (ok, ds', ctx')"
  shows "int (fcard (keys ds')) \<le> limit"
proof (cases "primaryKey item")
  case None
  with processKey_None [OF None, of accepts ds ctx limit] assms show ?thesis by auto
next
  case (Some key)
  with assms show ?thesis
    by (auto simp: processKey_Some fcard_finsert_if split: if_splits)
qed

lemma processKeys_inv:
  "scan_inv ds \<Longrightarrow> scan_inv (fst (processKeys accepts limit ds ctx items))"
proof (induction items arbitrary: ds ctx)
  case Nil then show ?case by simp
next
  case (Cons item items)
  obtain ok ds' ctx' where pk: "processKey accepts ds item ctx limit = (ok, ds', ctx')"
    by (cases "processKey accepts ds item ctx limit") auto
  from processKey_inv [OF Cons.prems pk] have inv': "scan_inv ds'" .
  show ?case using pk inv' Cons.IH [OF inv'] by (cases ok) simp_all
qed

lemma processKeys_limit:
  "0 < limit \<Longrightarrow> int (fcard (keys ds)) \<le> limit \<Longrightarrow>
     int (fcard (keys (fst (processKeys accepts limit ds ctx items)))) \<le> limit"
proof (induction items arbitrary: ds ctx)
  case Nil then show ?case by simp
next
  case (Cons item items)
  obtain ok ds' ctx' where pk: "processKey accepts ds item ctx limit = (ok, ds', ctx')"
    by (cases "processKey accepts ds item ctx limit") auto
  from processKey_limit [OF Cons.prems pk] have l': "int (fcard (keys ds')) \<le> limit" .
  show ?case using pk l' Cons.IH [OF Cons.prems(1) l'] by (cases ok) simp_all
qed

text \<open>
  C9.  DistinctScan emits each primary key at most once.  Started on the empty pooled key
  set, whatever items the child scan delivers and whatever the downstream accepts: the
  forwarded items carry pairwise different primary keys; an item whose key is already
  recorded is consumed (the loop goes on) and nothing is forwarded or recorded; under a
  positive limit an item with a new key stops the scan once the key set has reached the
  limit, so that at most \<open>limit\<close> items are ever forwarded.
\<close>

theorem DistinctScan_at_most_once:
  assumes "keys ds = {||}" and "outputItems ds = []"
  shows "(let out = outputItems (fst (processKeys accepts limit ds ctx items)) in
           distinct (map primaryKey out)
           \<and> (\<forall>it \<in> set out. primaryKey it \<noteq> None)
           \<and> (0 < limit \<longrightarrow> int (length out) \<le> limit))
         \<and> (\<forall>st item ctx key. primaryKey item = Some key \<and> key |\<in>| keys st \<longrightarrow>
               processKey accepts st item ctx limit = (True, st, ctx))
         \<and> (\<forall>st item ctx key. primaryKey item = Some key \<and> key |\<notin>| keys st
               \<and> 0 < limit \<and> limit \<le> int (fcard (keys st)) \<longrightarrow>
               processKey accepts st item ctx limit = (False, st, ctx))"
proof -
  have i0: "scan_inv ds" using assms by (simp add: scan_inv_def fcard_fempty)
  have l0: "0 < limit \<Longrightarrow> int (fcard (keys ds)) \<le> limit" using assms by (simp add: fcard_fempty)
  let ?fin = "fst (processKeys accepts limit ds ctx items)"
  have inv: "scan_inv ?fin" by (rule processKeys_inv [OF i0])
  have lim: "0 < limit \<Longrightarrow> int (length (outputItems ?fin)) \<le> limit"
  proof -
    assume p: "0 < limit"
    have "int (fcard (keys ?fin)) \<le> limit" by (rule processKeys_limit [OF p l0 [OF p]])
    moreover have "length (outputItems ?fin) \<le> fcard (keys ?fin)" using inv by (simp add: scan_inv_def)
    ultimately show ?thesis by linarith
  qed
  have a: "distinct (map primaryKey (outputItems ?fin))" using inv by (simp add: scan_inv_def)
  have b: "\<forall>it \<in> set (outputItems ?fin). primaryKey it \<noteq> None" using inv by (auto simp: scan_inv_def)
  have c: "\<forall>st item ctx key. primaryKey item = Some key \<and> key |\<in>| keys st \<longrightarrow>
               processKey accepts st item ctx limit = (True, st, ctx)"
    by (auto simp: processKey_Some)
  have d: "\<forall>st item ctx key. primaryKey item = Some key \<and> key |\<notin>| keys st
               \<and> 0 < limit \<and> limit \<le> int (fcard (keys st)) \<longrightarrow>
               processKey accepts st item ctx limit = (False, st, ctx)"
    by (auto simp: processKey_Some)
  show ?thesis using a b lim c d by (simp add: Let_def)
qed

lemma DistinctScan_run_example:
  "processKeys (\<lambda>_ _. True) 2 newDistinctScan newContext
     [withKey ''a'', withKey ''a'', withKey ''b'', withKey ''b'', withKey ''c'', withKey ''d'']
   = (\<lparr>keys = {|''b'', ''a''|}, scanBit = 0, outputItems = [withKey ''a'', withKey ''b'']\<rparr>, newContext)"
  by (simp add: processKey_def newDistinctScan_def newContext_def withKey_def GetAttachment_def
        sendItem_def SetBit_def fcard_finsert_if fcard_fempty)

theorem DistinctScan_at_most_once_witness:
  "keys newDistinctScan = {||} \<and> outputItems newDistinctScan = []
   \<and> outputItems (fst (processKeys (\<lambda>_ _. True) 2 newDistinctScan newContext
        [withKey ''a'', withKey ''a'', withKey ''b'', withKey ''b'', withKey ''c'', withKey ''d'']))
      = [withKey ''a'', withKey ''b'']
   \<and> distinct (map primaryKey [withKey ''a'', withKey ''b''])
   \<and> processKey (\<lambda>_ _. True) (newDistinctScan\<lparr>keys := {|''a''|}\<rparr>) (withKey ''a'') newContext 2
       = (True, newDistinctScan\<lparr>keys := {|''a''|}\<rparr>, newContext)
   \<and> processKey (\<lambda>_ _. True) (newDistinctScan\<lparr>keys := {|''a'', ''b''|}\<rparr>) (withKey ''c'') newContext 2
       = (False, newDistinctScan\<lparr>keys := {|''a'', ''b''|}\<rparr>, newContext)"
proof -
  have k: "keys newDistinctScan = {||}" and o: "outputItems newDistinctScan = []"
    by (simp_all add: newDistinctScan_def)
  have pa: "primaryKey (withKey ''a'') = Some ''a''" and pc: "primaryKey (withKey ''c'') = Some ''c''"
    by (simp_all add: primaryKey_def withKey_def GetAttachment_def)
  note t = DistinctScan_at_most_once [OF k o, of "\<lambda>_ _. True" 2 newContext
      "[withKey ''a'', withKey ''a'', withKey ''b'', withKey ''b'', withKey ''c'', withKey ''d'']"]
  from t [unfolded DistinctScan_run_example]
  have d: "distinct (map primaryKey [withKey ''a'', withKey ''b''])"
    by (simp add: Let_def)
  from t pa have s1: "processKey (\<lambda>_ _. True) (newDistinctScan\<lparr>keys := {|''a''|}\<rparr>) (withKey ''a'') newContext 2
       = (True, newDistinctScan\<lparr>keys := {|''a''|}\<rparr>, newContext)"
    by simp
  from t pc have s2: "processKey (\<lambda>_ _. True) (newDistinctScan\<lparr>keys := {|''a'', ''b''|}\<rparr>) (withKey ''c'') newContext 2
       = (False, newDistinctScan\<lparr>keys := {|''a'', ''b''|}\<rparr>, newContext)"
    by (simp add: fcard_finsert_if fcard_fempty)
  show ?thesis unfolding DistinctScan_run_example using k o d s1 s2 by simp
qed

text \<open>
  C10.  An item whose \<^verbatim>\<open>"meta"\<close> attachment is absent or not a string-keyed map, or
  whose \<^verbatim>\<open>"id"\<close> entry is absent or not a string, makes \<^verbatim>\<open>processKey\<close> publish an
  invalid-value error through the context and answer false: the operator's key set and
  output are unchanged, and the consuming loop ends there whatever items follow.
\<close>

theorem processKey_invalid_meta:
  assumes "(\<forall>meta. GetAttachment item ''meta'' \<noteq> AnyMap meta)
           \<or> (\<exists>meta. GetAttachment item ''meta'' = AnyMap meta
                  \<and> (\<forall>key. map_of meta ''id'' \<noteq> Some (AnyString key)))"
  shows "\<exists>msg. processKey accepts ds item ctx limit
                 = (False, ds, context_Error ctx (InvalidValueError msg))
              \<and> processKeys accepts limit ds ctx (item # rest)
                 = (ds, context_Error ctx (InvalidValueError msg))"
  using assms
  by (auto simp: processKey_def split: any.splits option.splits)

theorem processKey_invalid_meta_witness:
  "processKey (\<lambda>_ _. True) newDistinctScan \<lparr>payload = NullVal, attachments = [], bit = 0\<rparr> newContext 0
     = (False, newDistinctScan, \<lparr>errors = [InvalidValueError ''Missing or invalid meta'']\<rparr>)
   \<and> processKey (\<lambda>_ _. True) newDistinctScan
        \<lparr>payload = NullVal, attachments = [(''meta'', AnyMap [(''id'', AnyValue (NumberVal 7))])], bit = 0\<rparr>
        newContext 0
     = (False, newDistinctScan, \<lparr>errors = [InvalidValueError ''Missing or invalid primary key'']\<rparr>)"
  using processKey_invalid_meta [of "\<lparr>payload = NullVal, attachments = [], bit = 0\<rparr>" "\<lambda>_ _. True" newDistinctScan newContext 0 "[]"]
  by (simp add: processKey_def newDistinctScan_def newContext_def GetAttachment_def context_Error_def)

section \<open>Expression classifier (package planner: ClassifyExpr, exprClassifier)\<close>

text \<open>
  \<^verbatim>\<open>ClassifyExpr\<close> breaks a predicate on its AND boundaries and records every conjunct in
  the base keyspaces it refers to: in \<^verbatim>\<open>filters\<close> when one keyspace is left, in
  \<^verbatim>\<open>joinfilters\<close> when several are.
\<close>

text \<open>
  Modelled from the spec: a filter is the record \<^verbatim>\<open>{fltrExpr, origExpr, keyspaces,
  isOnclause, isJoin}\<close>; a base keyspace carries its name, the two lists \<^verbatim>\<open>filters\<close> and
  \<^verbatim>\<open>joinfilters\<close>, and the flag that \<^verbatim>\<open>PlanDone()\<close> reads.  Their declarations are not
  among the sources; the classifier uses exactly these components.  \<^verbatim>\<open>origExpr\<close> may be
  nil.  The set \<^verbatim>\<open>keyspaces\<close> (a \<^verbatim>\<open>map[string]bool\<close>) is the list of its members, in the
  order in which the \<^verbatim>\<open>range\<close> loops visit them.

  The table of base keyspaces is the Go map \<^verbatim>\<open>map[string]*baseKeyspace\<close> from alias to
  base keyspace, here an association list with distinct aliases.
\<close>

record PlanFilter =
  fltrExpr :: expr
  origExpr :: "expr option"
  keyspaces :: "string list"
  isOnclauseFilter :: bool
  isJoinFilter :: bool

record baseKeyspace =
  name :: string
  filters :: "PlanFilter list"
  joinfilters :: "PlanFilter list"
  planDone :: bool

type_synonym baseKeyspaces = "(string \<times> baseKeyspace) list"

text \<open>
  Modelled from the spec: \<^verbatim>\<open>newFilter\<close> builds the record from its five arguments.

  \<open>addFilter\<close> and \<open>addJoinFilter\<close> are the two assignments
  \<^verbatim>\<open>baseKspace.filters = append(baseKspace.filters, filter)\<close> and
  \<^verbatim>\<open>baseKspace.joinfilters = append(baseKspace.joinfilters, filter)\<close> through the pointer
  stored in the table under \<open>kspace\<close>.  \<open>dropPlanDone\<close> is the loop of the ON-clause path
  that deletes from \<^verbatim>\<open>keyspaces\<close> every keyspace of the table whose plan is done.
\<close>

definition newFilter :: "expr \<Rightarrow> expr option \<Rightarrow> string list \<Rightarrow> bool \<Rightarrow> bool \<Rightarrow> PlanFilter" where
  "newFilter f orig ks onclause isJoin =
     \<lparr>fltrExpr = f, origExpr = orig, keyspaces = ks, isOnclauseFilter = onclause,
      isJoinFilter = isJoin\<rparr>"

definition addFilter :: "baseKeyspaces \<Rightarrow> string \<Rightarrow> PlanFilter \<Rightarrow> baseKeyspaces" where
  "addFilter bks kspace fl =
     (case map_of bks kspace of
        None \<Rightarrow> bks
      | Some b \<Rightarrow> AList.update kspace (b\<lparr>filters := filters b @ [fl]\<rparr>) bks)"

definition addJoinFilter :: "baseKeyspaces \<Rightarrow> string \<Rightarrow> PlanFilter \<Rightarrow> baseKeyspaces" where
  "addJoinFilter bks kspace fl =
     (case map_of bks kspace of
        None \<Rightarrow> bks
      | Some b \<Rightarrow> AList.update kspace (b\<lparr>joinfilters := joinfilters b @ [fl]\<rparr>) bks)"

definition dropPlanDone :: "baseKeyspaces \<Rightarrow> string list \<Rightarrow> string list" where
  "dropPlanDone bks ks =
     filter (\<lambda>kspace. case map_of bks kspace of None \<Rightarrow> True | Some b \<Rightarrow> \<not> planDone b) ks"

text \<open>
  The classifier calls four functions of other files, which are parameters of the model:
  \<^verbatim>\<open>expression.CountKeySpaces\<close> (the base keyspaces an expression refers to, or an error),
  the transformation \<^verbatim>\<open>NewDNF(expr, true, false).Map\<close> (it may fail), \<^verbatim>\<open>flattenOr\<close>
  (the flattened OR, if any, and a truth flag) and \<^verbatim>\<open>copyBaseKeyspaces\<close>.  The fifth
  parameter is the evaluation of the expression kinds outside the sources, as in
  \<open>Evaluate\<close>.
\<close>

record planner =
  CountKeySpaces :: "expr \<Rightarrow> string list \<Rightarrow> error + string list"
  dnfMap :: "expr \<Rightarrow> error + expr"
  flattenOr :: "expr \<Rightarrow> expr option \<times> bool"
  copyBaseKeyspaces :: "baseKeyspaces \<Rightarrow> baseKeyspaces"
  evaluation :: ext

text \<open>
  The visitor.  \<^verbatim>\<open>keyspaceNames\<close> is the set of the names of the base keyspaces;
  \<^verbatim>\<open>recurseExpr\<close> and \<^verbatim>\<open>recurseJoinExpr\<close> may be nil.
\<close>

record exprClassifier =
  table :: baseKeyspaces
  keyspaceNames :: "string list"
  recursion :: bool
  recurseExpr :: "expr option"
  recursionJoin :: bool
  recurseJoinExpr :: "expr option"
  isOnclause :: bool

definition newExprClassifier :: "baseKeyspaces \<Rightarrow> bool \<Rightarrow> exprClassifier" where
  "newExprClassifier bks onclause =
     \<lparr>table = bks, keyspaceNames = remdups (map (\<lambda>(alias, keyspace). name keyspace) bks),
      recursion = False, recurseExpr = None, recursionJoin = False, recurseJoinExpr = None,
      isOnclause = onclause\<rparr>"

text \<open>
  \<^verbatim>\<open>NewOr\<close> (logic_or.go) stores its operands in a fresh node.  Modelled from the spec:
  \<^verbatim>\<open>NewAnd\<close> does the same for a conjunction.

  The first test of \<^verbatim>\<open>visitDefault\<close>: \<^verbatim>\<open>cpred := expr.Value(); cpred != nil && cpred.Truth()\<close>.
  \<^verbatim>\<open>Value()\<close> also fills the caches of the expression; the classifier reads them nowhere
  else, and the model keeps the expression as it was.
\<close>

definition NewAnd :: "expr \<Rightarrow> expr \<Rightarrow> expr" where
  "NewAnd a b = Expr newBase TAnd [a, b]"

definition NewOr :: "expr list \<Rightarrow> expr" where
  "NewOr operands = Expr newBase TOr operands"

definition constantTrue :: "planner \<Rightarrow> expr \<Rightarrow> bool" where
  "constantTrue deps e = (case fst (Value (evaluation deps) e) of None \<Rightarrow> False | Some cpred \<Rightarrow> Truth cpred)"

text \<open>
  \<^verbatim>\<open>extractExpr\<close>.  The inner loop over \<^verbatim>\<open>kspace.filters\<close> is \<open>collectTerms\<close>: it chains
  the filter expressions with \<^verbatim>\<open>NewAnd\<close>, chains the original expressions that are not
  nil, and accumulates \<^verbatim>\<open>isJoin\<close>.  The outer loop over the operands of the flattened OR
  is \<open>extractTerms\<close>; it calls \<^verbatim>\<open>ClassifyExpr\<close> on a copy of the table, which is the
  parameter \<open>classify\<close> here (the recursion is closed below).  A result is an error, or
  nothing (\<^verbatim>\<open>newPred == nil\<close>), or the triple \<^verbatim>\<open>newPred, newOrigPred, isJoin\<close>; the outer
  \<open>None\<close> stands for a call of \<open>classify\<close> that does not return.
\<close>

fun collectTerms ::
  "PlanFilter list \<Rightarrow> expr option \<Rightarrow> expr option \<Rightarrow> bool \<Rightarrow> expr option \<times> expr option \<times> bool" where
  "collectTerms [] newTerm newOrigTerm isJoin = (newTerm, newOrigTerm, isJoin)"
| "collectTerms (fl # fls) newTerm newOrigTerm isJoin =
     collectTerms fls
       (case newTerm of None \<Rightarrow> Some (fltrExpr fl) | Some t \<Rightarrow> Some (NewAnd t (fltrExpr fl)))
       (case origExpr fl of
          None \<Rightarrow> newOrigTerm
        | Some orig \<Rightarrow> (case newOrigTerm of None \<Rightarrow> Some orig | Some t \<Rightarrow> Some (NewAnd t orig)))
       (isJoin \<or> isJoinFilter fl)"

type_synonym classified = "(error + exprClassifier) option"

type_synonym extracted = "(error + (expr \<times> expr \<times> bool) option) option"

type_synonym classifyFn = "expr \<Rightarrow> baseKeyspaces \<Rightarrow> bool \<Rightarrow> (error + baseKeyspaces) option"

fun extractTerms ::
  "classifyFn \<Rightarrow> planner \<Rightarrow> exprClassifier \<Rightarrow> string \<Rightarrow> expr list \<Rightarrow> expr list \<Rightarrow> expr list
     \<Rightarrow> bool \<Rightarrow> extracted" where
  "extractTerms classify deps this keyspaceName [] newTerms newOrigTerms isJoin =
     Some (Inr (Some (NewOr newTerms, NewOr newOrigTerms, isJoin)))"
| "extractTerms classify deps this keyspaceName (op # ops) newTerms newOrigTerms isJoin =
     (case classify op (copyBaseKeyspaces deps (table this)) (isOnclause this) of
        None \<Rightarrow> None
      | Some (Inl err) \<Rightarrow> Some (Inl err)
      | Some (Inr bks) \<Rightarrow>
          (case (case map_of bks keyspaceName of
                   None \<Rightarrow> (None, None, isJoin)
                 | Some kspace \<Rightarrow> collectTerms (filters kspace) None None isJoin) of
             (None, newOrigTerm, isJoin') \<Rightarrow> Some (Inr None)
           | (Some newTerm, newOrigTerm, isJoin') \<Rightarrow>
               extractTerms classify deps this keyspaceName ops (newTerms @ [newTerm])
                 (case newOrigTerm of None \<Rightarrow> newOrigTerms | Some t \<Rightarrow> newOrigTerms @ [t])
                 isJoin'))"

definition extractExpr ::
  "classifyFn \<Rightarrow> planner \<Rightarrow> exprClassifier \<Rightarrow> expr \<Rightarrow> string \<Rightarrow> extracted" where
  "extractExpr classify deps this orExpr keyspaceName =
     (case flattenOr deps orExpr of
        (None, truth) \<Rightarrow> Some (Inr None)
      | (Some orTerms, truth) \<Rightarrow>
          if truth then Some (Inr None)
          else extractTerms classify deps this keyspaceName (Children orTerms) [] [] False)"

text \<open>
  The last loop of \<^verbatim>\<open>visitDefault\<close>, \<^verbatim>\<open>for kspace, _ := range keyspaces\<close>: \<open>ks\<close> is the
  whole set (the filter records it, and its size decides between \<^verbatim>\<open>filters\<close> and
  \<^verbatim>\<open>joinfilters\<close>), \<open>rest\<close> the keyspaces still to be visited.
\<close>

fun classifyKeyspaces ::
  "classifyFn \<Rightarrow> planner \<Rightarrow> exprClassifier \<Rightarrow> expr \<Rightarrow> expr option \<Rightarrow> string list \<Rightarrow> bool
     \<Rightarrow> string list \<Rightarrow> classified" where
  "classifyKeyspaces classify deps this dnfExpr orig ks isJoin [] = Some (Inr this)"
| "classifyKeyspaces classify deps this dnfExpr orig ks isJoin (kspace # rest) =
     (case map_of (table this) kspace of
        None \<Rightarrow> Some (Inl (PlanInternalError ''exprClassifier.visitDefault: missing keyspace''))
      | Some baseKspace \<Rightarrow>
          (let fl = newFilter dnfExpr orig ks (isOnclause this) isJoin in
           if length ks = 1 then
             classifyKeyspaces classify deps (this\<lparr>table := addFilter (table this) kspace fl\<rparr>)
               dnfExpr orig ks isJoin rest
           else
             (let this1 = this\<lparr>table := addJoinFilter (table this) kspace fl\<rparr> in
              if TypeOf dnfExpr = TOr then
                (case extractExpr classify deps this1 dnfExpr (name baseKspace) of
                   None \<Rightarrow> None
                 | Some (Inl err) \<Rightarrow> Some (Inl err)
                 | Some (Inr None) \<Rightarrow>
                     classifyKeyspaces classify deps this1 dnfExpr orig ks isJoin rest
                 | Some (Inr (Some (newPred, newOrigPred, orIsJoin))) \<Rightarrow>
                     classifyKeyspaces classify deps
                       (this1\<lparr>table := addFilter (table this1) kspace
                                 (newFilter newPred (Some newOrigPred) [name baseKspace]
                                    (isOnclause this1) orIsJoin)\<rparr>)
                       dnfExpr orig ks isJoin rest)
              else classifyKeyspaces classify deps this1 dnfExpr orig ks isJoin rest)))"

text \<open>
  \<^verbatim>\<open>visitDefault\<close>.  The two deferred assignments restore \<^verbatim>\<open>recursion\<close> and
  \<^verbatim>\<open>recursionJoin\<close> when \<^verbatim>\<open>VisitAnd\<close> has returned.  \<^verbatim>\<open>isJoin\<close> is computed before the
  ON-clause path removes keyspaces, the test \<^verbatim>\<open>len(keyspaces) == 1\<close> of the loop after.
  The calls of \<^verbatim>\<open>VisitAnd\<close> and, through \<^verbatim>\<open>extractExpr\<close>, of \<^verbatim>\<open>ClassifyExpr\<close> are the
  parameters \<open>visitAnd\<close> and \<open>classify\<close>.
\<close>

definition visitDefault ::
  "classifyFn \<Rightarrow> (exprClassifier \<Rightarrow> expr list \<Rightarrow> classified) \<Rightarrow> planner \<Rightarrow> exprClassifier \<Rightarrow> expr
     \<Rightarrow> classified" where
  "visitDefault classify visitAnd deps this expr =
     (if constantTrue deps expr then Some (Inr this)
      else
        (case CountKeySpaces deps expr (keyspaceNames this) of
           Inl err \<Rightarrow> Some (Inl err)
         | Inr counted \<Rightarrow>
             (let ks = remdups counted in
              if length ks < 1 then Some (Inr this)
              else
                (case dnfMap deps expr of
                   Inl err \<Rightarrow> Some (Inl err)
                 | Inr dnfExpr \<Rightarrow>
                     if TypeOf dnfExpr = TAnd then
                       (if length ks = 1 then
                          (case visitAnd
                                  (this\<lparr>recursion := True,
                                        recurseExpr := (if recurseExpr this = None then Some expr
                                                        else recurseExpr this)\<rparr>)
                                  (Children dnfExpr) of
                             None \<Rightarrow> None
                           | Some (Inl err) \<Rightarrow> Some (Inl err)
                           | Some (Inr this') \<Rightarrow> Some (Inr (this'\<lparr>recursion := recursion this\<rparr>)))
                        else
                          (case visitAnd
                                  (this\<lparr>recursionJoin := True,
                                        recurseJoinExpr := (if recurseJoinExpr this = None then Some expr
                                                            else recurseJoinExpr this)\<rparr>)
                                  (Children dnfExpr) of
                             None \<Rightarrow> None
                           | Some (Inl err) \<Rightarrow> Some (Inl err)
                           | Some (Inr this') \<Rightarrow>
                               Some (Inr (this'\<lparr>recursionJoin := recursionJoin this\<rparr>))))
                     else
                       (let (orig, this1) =
                              (if length ks = 1 then
                                 (if recursion this then (recurseExpr this, this\<lparr>recurseExpr := None\<rparr>)
                                  else (Some expr, this))
                               else
                                 (if recursionJoin this
                                  then (recurseJoinExpr this, this\<lparr>recurseJoinExpr := None\<rparr>)
                                  else (Some expr, this)));
                            isJoin = (length ks > 1);
                            ks' = (if isOnclause this1 then dropPlanDone (table this1) ks else ks)
                        in classifyKeyspaces classify deps this1 dnfExpr orig ks' isJoin ks')))))"

text \<open>
  \<^verbatim>\<open>VisitAnd\<close> visits the operands in order, itself on an operand that is an AND and
  \<^verbatim>\<open>visitDefault\<close> on any other (every other \<^verbatim>\<open>Visit\<close> method of the classifier calls
  \<^verbatim>\<open>visitDefault\<close>, which is what \<open>Accept\<close> does).  \<open>classifyWith\<close> is the body of
  \<^verbatim>\<open>ClassifyExpr\<close>.
\<close>

fun VisitAnd ::
  "(exprClassifier \<Rightarrow> expr \<Rightarrow> classified) \<Rightarrow> exprClassifier \<Rightarrow> expr list \<Rightarrow> classified" where
  "VisitAnd visit this [] = Some (Inr this)"
| "VisitAnd visit this (Expr b t cs # ops) =
     (case (if t = TAnd then VisitAnd visit this cs else visit this (Expr b t cs)) of
        None \<Rightarrow> None
      | Some (Inl err) \<Rightarrow> Some (Inl err)
      | Some (Inr this') \<Rightarrow> VisitAnd visit this' ops)"

definition Accept ::
  "(exprClassifier \<Rightarrow> expr \<Rightarrow> classified) \<Rightarrow> exprClassifier \<Rightarrow> expr \<Rightarrow> classified" where
  "Accept visit this expr =
     (if TypeOf expr = TAnd then VisitAnd visit this (Children expr) else visit this expr)"

definition classifyWith :: "(exprClassifier \<Rightarrow> expr \<Rightarrow> classified) \<Rightarrow> classifyFn" where
  "classifyWith visit expr bks onclause =
     (if length bks = 0 then Some (Inl (PlanError ''ClassifyExpr: invalid argument baseKeyspaces''))
      else
        (case Accept visit (newExprClassifier bks onclause) expr of
           None \<Rightarrow> None
         | Some (Inl err) \<Rightarrow> Some (Inl err)
         | Some (Inr classifier) \<Rightarrow> Some (Inr (table classifier))))"

text \<open>
  \<^verbatim>\<open>visitDefault\<close>, \<^verbatim>\<open>VisitAnd\<close>, \<^verbatim>\<open>extractExpr\<close> and \<^verbatim>\<open>ClassifyExpr\<close> call one
  another, on expressions that the transformation and \<^verbatim>\<open>flattenOr\<close> produce, so nothing
  bounds the depth of the calls.  \<open>fuel\<close> is the number of nested calls of
  \<^verbatim>\<open>visitDefault\<close> allowed; a run that would need more has the result \<open>None\<close>.
\<close>

fun visitDefaultN :: "nat \<Rightarrow> planner \<Rightarrow> exprClassifier \<Rightarrow> expr \<Rightarrow> classified" where
  "visitDefaultN 0 deps = visitDefault (\<lambda>expr bks onclause. None) (\<lambda>this ops. None) deps"
| "visitDefaultN (Suc fuel) deps =
     visitDefault (classifyWith (visitDefaultN fuel deps)) (VisitAnd (visitDefaultN fuel deps)) deps"

definition ClassifyExpr ::
  "nat \<Rightarrow> planner \<Rightarrow> expr \<Rightarrow> baseKeyspaces \<Rightarrow> bool \<Rightarrow> (error + baseKeyspaces) option" where
  "ClassifyExpr fuel deps = classifyWith (visitDefaultN fuel deps)"

text \<open>
  What the claims observe of a table: the aliases, names and \<^verbatim>\<open>PlanDone\<close> flags (which
  the classifier never changes), the number of filters and of join filters over all base
  keyspaces, and the two lists of one keyspace.
\<close>

definition shape :: "baseKeyspaces \<Rightarrow> (string \<times> string \<times> bool) list" where
  "shape bks = map (\<lambda>(alias, b). (alias, name b, planDone b)) bks"



definition joinfiltersOf :: "baseKeyspaces \<Rightarrow> string \<Rightarrow> PlanFilter list" where
  "joinfiltersOf bks kspace = (case map_of bks kspace of None \<Rightarrow> [] | Some b \<Rightarrow> joinfilters b)"

definition filtersOf :: "baseKeyspaces \<Rightarrow> string \<Rightarrow> PlanFilter list" where
  "filtersOf bks kspace = (case map_of bks kspace of None \<Rightarrow> [] | Some b \<Rightarrow> filters b)"


definition origState :: "exprClassifier \<Rightarrow> nat \<Rightarrow> exprClassifier" where
  "origState this n =
     (if n = 1 then (if recursion this then this\<lparr>recurseExpr := None\<rparr> else this)
      else (if recursionJoin this then this\<lparr>recurseJoinExpr := None\<rparr> else this))"












text \<open>
  Examples.  In \<open>exPlanner\<close> the keyspaces of an expression are the identifiers it
  contains that name a base keyspace, the transformation is the identity, an OR is
  already flat, and a copy of the table keeps aliases and names and starts with empty
  lists.  The table has the two keyspaces \<open>a\<close> and \<open>b\<close>.
\<close>

fun identifiers :: "expr \<Rightarrow> string list" and identifiers_list :: "expr list \<Rightarrow> string list" where
  "identifiers (Expr b t cs) =
     (case (t, cs) of (TOther n, []) \<Rightarrow> [n] | _ \<Rightarrow> identifiers_list cs)"
| "identifiers_list [] = []"
| "identifiers_list (c # cs) = identifiers c @ identifiers_list cs"

definition exPlanner :: planner where
  "exPlanner =
     \<lparr>CountKeySpaces = (\<lambda>e names. Inr (filter (\<lambda>n. n \<in> set names) (identifiers e))),
      dnfMap = (\<lambda>e. Inr e),
      flattenOr = (\<lambda>e. if TypeOf e = TOr then (Some e, False) else (None, False)),
      copyBaseKeyspaces = map (\<lambda>(alias, b). (alias, b\<lparr>filters := [], joinfilters := []\<rparr>)),
      evaluation = extExample\<rparr>"

definition newBaseKeyspace :: "string \<Rightarrow> baseKeyspace" where
  "newBaseKeyspace n = \<lparr>name = n, filters = [], joinfilters = [], planDone = False\<rparr>"

definition exTable :: baseKeyspaces where
  "exTable = [(''a'', newBaseKeyspace ''a''), (''b'', newBaseKeyspace ''b'')]"

definition exField :: "string \<Rightarrow> string \<Rightarrow> expr" where
  "exField keyspace field = Expr newBase (TOther (''field '' @ field)) [exIdent keyspace]"

definition exEq :: "expr \<Rightarrow> expr \<Rightarrow> expr" where
  "exEq l r = Expr newBase (TOther ''eq'') [l, r]"

definition exJoinPred :: expr where
  "exJoinPred = exEq (exField ''a'' ''x'') (exField ''b'' ''y'')"



definition exDisjunct :: "string \<Rightarrow> expr" where
  "exDisjunct field = NewAnd exJoinPred (exEq (exField ''a'' field) exOne)"

definition exOrPred :: expr where
  "exOrPred = NewOr [exDisjunct ''z'', exDisjunct ''w'']"





subsection \<open>Appending to the table\<close>


lemma shape_update:
  "map_of bks k = Some b \<Longrightarrow> name v = name b \<Longrightarrow> planDone v = planDone b \<Longrightarrow>
     shape (AList.update k v bks) = shape bks"
  unfolding shape_def by (induction bks) (auto split: if_splits)

lemma shape_addFilter [simp]: "shape (addFilter bks k fl) = shape bks"
  by (auto simp: addFilter_def shape_update split: option.splits)

lemma shape_addJoinFilter [simp]: "shape (addJoinFilter bks k fl) = shape bks"
  by (auto simp: addJoinFilter_def shape_update split: option.splits)

lemma map_of_addFilter:
  "map_of (addFilter bks k fl) k' =
     (if k' = k then map_option (\<lambda>b. b\<lparr>filters := filters b @ [fl]\<rparr>) (map_of bks k)
      else map_of bks k')"
  by (auto simp: addFilter_def update_conv' split: option.splits)

lemma map_of_addJoinFilter:
  "map_of (addJoinFilter bks k fl) k' =
     (if k' = k then map_option (\<lambda>b. b\<lparr>joinfilters := joinfilters b @ [fl]\<rparr>) (map_of bks k)
      else map_of bks k')"
  by (auto simp: addJoinFilter_def update_conv' split: option.splits)





lemma joinfiltersOf_addFilter [simp]:
  "joinfiltersOf (addFilter bks k fl) k' = joinfiltersOf bks k'"
  by (auto simp: joinfiltersOf_def map_of_addFilter split: option.splits)


lemma filtersOf_addJoinFilter [simp]:
  "filtersOf (addJoinFilter bks k fl) k' = filtersOf bks k'"
  by (auto simp: filtersOf_def map_of_addJoinFilter split: option.splits)


lemma present_addFilter [simp]:
  "map_of (addFilter bks k fl) k' = None \<longleftrightarrow> map_of bks k' = None"
  by (simp add: map_of_addFilter)

lemma present_addJoinFilter [simp]:
  "map_of (addJoinFilter bks k fl) k' = None \<longleftrightarrow> map_of bks k' = None"
  by (simp add: map_of_addJoinFilter)

subsection \<open>The loop over the keyspaces\<close>








lemma origState_simps [simp]:
  "table (origState this n) = table this"
  "isOnclause (origState this n) = isOnclause this"
  "keyspaceNames (origState this n) = keyspaceNames this"
  by (simp_all add: origState_def)









text \<open>
  On the ON-clause path a keyspace whose plan is done is removed before the loop: the
  join predicate \<open>a.x = b.y\<close>, with the plan of \<open>b\<close> done, is left with the keyspace \<open>a\<close>
  alone and is appended to its \<^verbatim>\<open>filters\<close>, with \<^verbatim>\<open>isJoin\<close> set.
\<close>

lemma ClassifyExpr_onclause_example:
  "ClassifyExpr 1 exPlanner exJoinPred
       [(''a'', newBaseKeyspace ''a''), (''b'', (newBaseKeyspace ''b'')\<lparr>planDone := True\<rparr>)] True
     = Some (Inr [(''a'', (newBaseKeyspace ''a'')
                     \<lparr>filters := [newFilter exJoinPred (Some exJoinPred) [''a''] True True]\<rparr>),
                  (''b'', (newBaseKeyspace ''b'')\<lparr>planDone := True\<rparr>)])"
  by (simp add: ClassifyExpr_def classifyWith_def Accept_def
      visitDefault_def constantTrue_def exPlanner_def exJoinPred_def exEq_def exField_def exIdent_def
      newBase_def extExample_def newExprClassifier_def newBaseKeyspace_def
      addFilter_def addJoinFilter_def Let_def newFilter_def dropPlanDone_def)



subsection \<open>Counting the filters of a predicate\<close>


















subsection \<open>Extraction from an OR over several keyspaces\<close>







text \<open>
  The whole run on \<open>(a.x = b.y AND a.z = 1) OR (a.x = b.y AND a.w = 1)\<close>: the OR is a join
  filter of \<open>a\<close> and of \<open>b\<close>, and \<open>a\<close> also gets the filter \<open>a.z = 1 OR a.w = 1\<close>.
\<close>

lemma ClassifyExpr_or_example:
  "ClassifyExpr 2 exPlanner exOrPred exTable False
     = Some (Inr [(''a'', (newBaseKeyspace ''a'')
                     \<lparr>filters := [newFilter
                         (NewOr [exEq (exField ''a'' ''z'') exOne, exEq (exField ''a'' ''w'') exOne])
                         (Some (NewOr [exEq (exField ''a'' ''z'') exOne, exEq (exField ''a'' ''w'') exOne]))
                         [''a''] False False],
                      joinfilters := [newFilter exOrPred (Some exOrPred) [''b'', ''a''] False True]\<rparr>),
                  (''b'', (newBaseKeyspace ''b'')
                     \<lparr>joinfilters := [newFilter exOrPred (Some exOrPred) [''b'', ''a''] False True]\<rparr>)])"
  by (simp add: ClassifyExpr_def classifyWith_def Accept_def exOrPred_def exDisjunct_def NewAnd_def NewOr_def
      visitDefault_def constantTrue_def exPlanner_def exJoinPred_def exEq_def exField_def exIdent_def
      exOne_def newBase_def extExample_def newExprClassifier_def exTable_def newBaseKeyspace_def
      addFilter_def addJoinFilter_def Let_def newFilter_def extractExpr_def eval_nat_numeral)



end
